theory Spec2Isabelle
  imports Main
begin

section \<open>Tokens, syntax-tree snapshots and leaves\<close>

text \<open>
  Shallow embedding of \<^verbatim>\<open>src/cercis/lines.py\<close>: the logical line (\<^verbatim>\<open>Line\<close>),
  the line-fit judge (\<^verbatim>\<open>is_line_short_enough\<close>, \<^verbatim>\<open>can_omit_invisible_parens\<close>) and the
  blank-line tracker (\<^verbatim>\<open>EmptyLineTracker\<close>).

  Token types are the integer constants of \<^verbatim>\<open>blib2to3.pgen2.token\<close> that the file
  names, plus \<^verbatim>\<open>STANDALONE_COMMENT\<close> of \<^verbatim>\<open>cercis.nodes\<close>; every other token type is
  \<open>OTHER_TOKEN n\<close>. Grammar symbols (\<^verbatim>\<open>syms.*\<close>) are treated alike.
\<close>

datatype tok =
    NAME | STRING | COMMENT | COLON | COMMA | DOT | AT | ASYNC
  | LPAR | RPAR | LSQB | RSQB | LBRACE | RBRACE
  | STANDALONE_COMMENT | OTHER_TOKEN nat

datatype sym = trailer | subscriptlist | listmaker | OTHER_SYM nat

text \<open>The bracket tables of \<^verbatim>\<open>cercis.nodes\<close> (sets of token types).\<close>

definition OPENING_BRACKETS :: "tok set" where
  "OPENING_BRACKETS = {LPAR, LSQB, LBRACE}"

definition CLOSING_BRACKETS :: "tok set" where
  "CLOSING_BRACKETS = {RPAR, RSQB, RBRACE}"

definition BRACKETS :: "tok set" where
  "BRACKETS = OPENING_BRACKETS \<union> CLOSING_BRACKETS"

text \<open>
  \<open>ln\<close> is the \<^verbatim>\<open>LN = Union[Leaf, Node]\<close> of the source, as a read-only snapshot of a
  subtree: a leaf carries its type, prefix and value, a node its symbol and children.
\<close>

datatype ln = LeafN tok string string | NodeN sym "ln list"

fun ln_type :: "ln \<Rightarrow> tok + sym" where
  "ln_type (LeafN t p v) = Inl t"
| "ln_type (NodeN s cs) = Inr s"

fun ln_is_node :: "ln \<Rightarrow> bool" where
  "ln_is_node (LeafN t p v) = False"
| "ln_is_node (NodeN s cs) = True"

text \<open>\<^verbatim>\<open>str(node)\<close>: the prefixes and values of the leaves below, in order.\<close>

fun ln_str :: "ln \<Rightarrow> string" where
  "ln_str (LeafN t p v) = p @ v"
| "ln_str (NodeN s cs) = concat (map ln_str cs)"

text \<open>\<^verbatim>\<open>list(node.leaves())\<close>, by its length.\<close>

fun ln_leaf_count :: "ln \<Rightarrow> nat" where
  "ln_leaf_count (LeafN t p v) = 1"
| "ln_leaf_count (NodeN s cs) = sum_list (map ln_leaf_count cs)"

fun pre_order :: "ln \<Rightarrow> ln list" where
  "pre_order (LeafN t p v) = [LeafN t p v]"
| "pre_order (NodeN s cs) = NodeN s cs # concat (map pre_order cs)"

text \<open>
  \<^verbatim>\<open>Base.__eq__\<close> of the tree library compares type and value (leaves) or type and
  children (nodes); prefixes are ignored. \<open>ln_key\<close> erases them.
\<close>

fun ln_key :: "ln \<Rightarrow> ln" where
  "ln_key (LeafN t p v) = LeafN t [] v"
| "ln_key (NodeN s cs) = NodeN s (map ln_key cs)"

definition ln_eq :: "ln \<Rightarrow> ln \<Rightarrow> bool" where
  "ln_eq a b = (ln_key a = ln_key b)"

text \<open>
  A \<^verbatim>\<open>Leaf\<close> object. \<open>lid\<close> is its identity (\<^verbatim>\<open>id(leaf)\<close>), \<open>ltype\<close> and \<open>lvalue\<close>
  are \<^verbatim>\<open>leaf.type\<close> and \<^verbatim>\<open>leaf.value\<close>. \<open>opening_bracket\<close> refers to another leaf by
  identity. \<open>ancestors\<close> lists \<^verbatim>\<open>leaf.parent\<close>, its parent, and so on to the root.
\<close>

datatype leaf = Leaf
  (lid: nat)
  (ltype: tok)
  (lvalue: string)
  (prefix: string)
  (bracket_depth: int)
  (opening_bracket: "nat option")
  (lineno: int)
  (ancestors: "ln list")
  (prev_sibling: "ln option")
  (next_sibling: "ln option")
  (fmt_pass_converted_first_leaf: "leaf option")

definition parent :: "leaf \<Rightarrow> ln option" where
  "parent l = (case ancestors l of [] \<Rightarrow> None | p # ps \<Rightarrow> Some p)"

text \<open>In-place assignments to a leaf's attributes.\<close>

definition set_prefix :: "string \<Rightarrow> leaf \<Rightarrow> leaf" where
  "set_prefix p l =
     Leaf (lid l) (ltype l) (lvalue l) p (bracket_depth l) (opening_bracket l) (lineno l)
       (ancestors l) (prev_sibling l) (next_sibling l) (fmt_pass_converted_first_leaf l)"

definition set_type :: "tok \<Rightarrow> leaf \<Rightarrow> leaf" where
  "set_type t l =
     Leaf (lid l) t (lvalue l) (prefix l) (bracket_depth l) (opening_bracket l) (lineno l)
       (ancestors l) (prev_sibling l) (next_sibling l) (fmt_pass_converted_first_leaf l)"

definition set_bracket :: "int \<Rightarrow> nat option \<Rightarrow> leaf \<Rightarrow> leaf" where
  "set_bracket d ob l =
     Leaf (lid l) (ltype l) (lvalue l) (prefix l) d ob (lineno l)
       (ancestors l) (prev_sibling l) (next_sibling l) (fmt_pass_converted_first_leaf l)"

text \<open>\<^verbatim>\<open>str(leaf)\<close> is the prefix followed by the value.\<close>

definition leaf_str :: "leaf \<Rightarrow> string" where
  "leaf_str l = prefix l @ lvalue l"

definition leaf_ln :: "leaf \<Rightarrow> ln" where
  "leaf_ln l = LeafN (ltype l) (prefix l) (lvalue l)"

section \<open>Strings\<close>

text \<open>
  Python strings are sequences of code points; here they are \<open>string\<close>, one \<open>char\<close>
  per code point below 256. \<open>is_py_space\<close> is \<^verbatim>\<open>str.isspace\<close> on that range.
\<close>

definition newline :: char where
  "newline = CHR 0x0A"

definition is_py_space :: "char \<Rightarrow> bool" where
  "is_py_space c =
     (let n = (of_char c :: nat)
      in (9 \<le> n \<and> n \<le> 13) \<or> (28 \<le> n \<and> n \<le> 32) \<or> n = 133 \<or> n = 160)"

text \<open>\<^verbatim>\<open>s.strip()\<close> and \<^verbatim>\<open>s.strip("\n")\<close>.\<close>

definition strip_by :: "(char \<Rightarrow> bool) \<Rightarrow> string \<Rightarrow> string" where
  "strip_by P s = rev (dropWhile P (rev (dropWhile P s)))"

definition py_strip :: "string \<Rightarrow> string" where
  "py_strip s = strip_by is_py_space s"

definition strip_newlines :: "string \<Rightarrow> string" where
  "strip_newlines s = strip_by (\<lambda>c. c = newline) s"

definition startswith :: "string \<Rightarrow> string \<Rightarrow> bool" where
  "startswith s p = (take (length p) s = p)"

text \<open>\<^verbatim>\<open>sub in s\<close> on strings.\<close>

fun str_contains :: "string \<Rightarrow> string \<Rightarrow> bool" where
  "str_contains [] sub = (sub = [])"
| "str_contains (c # cs) sub = (startswith (c # cs) sub \<or> str_contains cs sub)"

text \<open>\<^verbatim>\<open>s.count("\n")\<close>.\<close>

definition count_newlines :: "string \<Rightarrow> nat" where
  "count_newlines s = length (filter (\<lambda>c. c = newline) s)"

section \<open>Errors\<close>

datatype error =
    ValueError string
  | IndexError
  | AssertionError string
  | StopIteration

text \<open>Sequencing of computations that may raise.\<close>

definition ebind :: "error + 'a \<Rightarrow> ('a \<Rightarrow> error + 'b) \<Rightarrow> error + 'b" where
  "ebind m f = (case m of Inl e \<Rightarrow> Inl e | Inr x \<Rightarrow> f x)"

text \<open>Short-circuit \<^verbatim>\<open>a and b\<close>, \<^verbatim>\<open>a or b\<close> where either side may raise.\<close>

definition eand :: "error + bool \<Rightarrow> error + bool \<Rightarrow> error + bool" where
  "eand a b = ebind a (\<lambda>x. if x then b else Inr False)"

definition eor :: "error + bool \<Rightarrow> error + bool \<Rightarrow> error + bool" where
  "eor a b = ebind a (\<lambda>x. if x then Inr True else b)"

section \<open>Mode, bracket tracker and the collaborators outside this file\<close>

datatype preview =
    multiline_string_handling
  | wrap_multiple_context_managers_in_parens
  | blank_line_after_nested_stub_class

text \<open>
  The fields of \<^verbatim>\<open>cercis.mode.Mode\<close> that the file reads. \<open>has_preview m f\<close> is
  \<^verbatim>\<open>f in mode\<close>.
\<close>

record mode =
  line_length :: int
  use_tabs :: bool
  preview_on :: bool
  wrap_pragma_comments :: bool
  is_pyi :: bool
  mode_magic_trailing_comma :: bool
  has_preview :: "preview \<Rightarrow> bool"

text \<open>An indentation context of \<^verbatim>\<open>cercis.indent\<close>; only their number is inspected here.\<close>

datatype indent = Indent nat

text \<open>
  The attributes of \<^verbatim>\<open>cercis.brackets.BracketTracker\<close> that the file reads: the current
  depth and the delimiter table (leaf identity to priority, in insertion order).
  \<open>bt_internal\<close> stands for the rest of the tracker's private state.
\<close>

record bracket_tracker =
  bt_depth :: int
  delimiters :: "(nat \<times> int) list"
  bt_internal :: nat

text \<open>
  Functions of the repository's other modules (\<^verbatim>\<open>cercis.nodes\<close>, \<^verbatim>\<open>cercis.brackets\<close>,
  \<^verbatim>\<open>cercis.indent\<close>, \<^verbatim>\<open>cercis.strings\<close>) that \<^verbatim>\<open>lines.py\<close> calls. They are not part of
  the file and are taken as parameters, as total functions.
  \<open>bt_mark\<close> returns the tracker after \<^verbatim>\<open>mark(leaf)\<close> together with the bracket depth and
  opening bracket it assigns to the leaf. \<open>nodes_is_one_sequence_between\<close> receives the
  opening bracket by identity. The two priority constants of \<^verbatim>\<open>cercis.brackets\<close> are
  parameters as well.
\<close>

record ext =
  nodes_whitespace :: "leaf \<Rightarrow> bool \<Rightarrow> string"
  nodes_is_import :: "leaf \<Rightarrow> bool"
  nodes_is_with_or_async_with_stmt :: "leaf \<Rightarrow> bool"
  nodes_is_multiline_string :: "leaf \<Rightarrow> bool"
  nodes_is_one_sequence_between :: "nat \<Rightarrow> leaf \<Rightarrow> leaf list \<Rightarrow> tok \<times> tok \<Rightarrow> bool"
  nodes_is_type_comment :: "leaf \<Rightarrow> string \<Rightarrow> bool"
  nodes_child_towards :: "ln \<Rightarrow> leaf \<Rightarrow> ln option"
  nodes_TEST_DESCENDANTS :: "sym set"
  bt_mark :: "bracket_tracker \<Rightarrow> leaf \<Rightarrow> bracket_tracker \<times> int \<times> nat option"
  bt_any_open_brackets :: "bracket_tracker \<Rightarrow> bool"
  bt_get_open_lsqb :: "bracket_tracker \<Rightarrow> leaf option"
  brackets_COMMA_PRIORITY :: int
  brackets_DOT_PRIORITY :: int
  indent_render :: "mode \<Rightarrow> indent list \<Rightarrow> bool \<Rightarrow> string"
  indent_calc_total_width :: "mode \<Rightarrow> indent list \<Rightarrow> int"
  strings_str_width :: "string \<Rightarrow> nat"

section \<open>The logical line\<close>

text \<open>
  \<open>comments\<close> is the dictionary from leaf identity to the comments filed under it, as an
  association list in insertion order (the order \<^verbatim>\<open>_str_inner\<close> renders).
\<close>

record line =
  mode :: mode
  depth :: "indent list"
  leaves :: "leaf list"
  comments :: "(nat \<times> leaf list) list"
  bracket_tracker :: bracket_tracker
  inside_brackets :: bool
  should_split_rhs :: bool
  magic_trailing_comma :: "leaf option"

text \<open>\<^verbatim>\<open>comments.get(k, [])\<close>, \<^verbatim>\<open>comments.setdefault(k, []).extend(cs)\<close>, \<^verbatim>\<open>comments.pop(k, [])\<close>.\<close>

definition comments_get :: "(nat \<times> leaf list) list \<Rightarrow> nat \<Rightarrow> leaf list" where
  "comments_get cm k = (case map_of cm k of None \<Rightarrow> [] | Some cs \<Rightarrow> cs)"

fun comments_extend :: "nat \<Rightarrow> leaf list \<Rightarrow> (nat \<times> leaf list) list \<Rightarrow> (nat \<times> leaf list) list" where
  "comments_extend k new [] = [(k, new)]"
| "comments_extend k new ((k', cs) # rest) =
     (if k' = k then (k', cs @ new) # rest else (k', cs) # comments_extend k new rest)"

definition comments_pop :: "nat \<Rightarrow> (nat \<times> leaf list) list \<Rightarrow> (nat \<times> leaf list) list" where
  "comments_pop k cm = filter (\<lambda>kv. fst kv \<noteq> k) cm"

text \<open>\<^verbatim>\<open>Line.__bool__\<close>.\<close>

definition line_bool :: "line \<Rightarrow> bool" where
  "line_bool l = (leaves l \<noteq> [] \<or> comments l \<noteq> [])"

text \<open>
  The pattern \<^verbatim>\<open>bool(self) and P(self.leaves[0])\<close> of the classification properties:
  a line with comments but no leaves raises \<^verbatim>\<open>IndexError\<close>.
\<close>

definition first_leaf_is :: "line \<Rightarrow> (leaf \<Rightarrow> bool) \<Rightarrow> error + bool" where
  "first_leaf_is l P =
     (if \<not> line_bool l then Inr False
      else case leaves l of [] \<Rightarrow> Inl IndexError | f # rest \<Rightarrow> Inr (P f))"

definition is_comment :: "line \<Rightarrow> bool" where
  "is_comment l = (case leaves l of [f] \<Rightarrow> ltype f = STANDALONE_COMMENT | _ \<Rightarrow> False)"

definition is_decorator :: "line \<Rightarrow> error + bool" where
  "is_decorator l = first_leaf_is l (\<lambda>f. ltype f = AT)"

definition is_import :: "ext \<Rightarrow> line \<Rightarrow> error + bool" where
  "is_import x l = first_leaf_is l (nodes_is_import x)"

definition is_with_or_async_with_stmt :: "ext \<Rightarrow> line \<Rightarrow> error + bool" where
  "is_with_or_async_with_stmt x l = first_leaf_is l (nodes_is_with_or_async_with_stmt x)"

definition is_class :: "line \<Rightarrow> error + bool" where
  "is_class l = first_leaf_is l (\<lambda>f. ltype f = NAME \<and> lvalue f = ''class'')"

text \<open>\<^verbatim>\<open>self.leaves[-n:]\<close>.\<close>

definition last_n :: "nat \<Rightarrow> 'a list \<Rightarrow> 'a list" where
  "last_n n xs = drop (length xs - n) xs"

definition is_stub_class :: "line \<Rightarrow> error + bool" where
  "is_stub_class l =
     eand (is_class l)
       (Inr (length (last_n 3 (leaves l)) = 3
             \<and> list_all (\<lambda>f. ltype f = DOT \<and> lvalue f = ''.'') (last_n 3 (leaves l))))"

definition is_def :: "line \<Rightarrow> bool" where
  "is_def l =
     (case leaves l of
        [] \<Rightarrow> False
      | first_leaf # rest \<Rightarrow>
          (ltype first_leaf = NAME \<and> lvalue first_leaf = ''def'')
          \<or> (ltype first_leaf = ASYNC
              \<and> (case rest of
                    [] \<Rightarrow> False
                  | second_leaf # others \<Rightarrow>
                      ltype second_leaf = NAME \<and> lvalue second_leaf = ''def'')))"

definition is_class_paren_empty :: "line \<Rightarrow> bool" where
  "is_class_paren_empty l =
     (line_bool l
      \<and> length (leaves l) = 4
      \<and> is_class l = Inr True
      \<and> ltype (leaves l ! 2) = LPAR
      \<and> lvalue (leaves l ! 2) = ''(''
      \<and> ltype (leaves l ! 3) = RPAR
      \<and> lvalue (leaves l ! 3) = '')'')"

definition is_triple_quoted_string :: "line \<Rightarrow> error + bool" where
  "is_triple_quoted_string l =
     first_leaf_is l
       (\<lambda>f. ltype f = STRING
             \<and> (startswith (lvalue f) [CHR 0x22, CHR 0x22, CHR 0x22]
                \<or> startswith (lvalue f) [CHR 0x27, CHR 0x27, CHR 0x27]))"

definition opens_block :: "line \<Rightarrow> bool" where
  "opens_block l = (if length (leaves l) = 0 then False else ltype (last (leaves l)) = COLON)"

definition is_fmt_pass_converted :: "line \<Rightarrow> (leaf \<Rightarrow> bool) option \<Rightarrow> bool" where
  "is_fmt_pass_converted l first_leaf_matches =
     (case leaves l of
        [f] \<Rightarrow>
          (case fmt_pass_converted_first_leaf f of
             None \<Rightarrow> False
           | Some orig \<Rightarrow>
               if ltype f \<noteq> STANDALONE_COMMENT then False
               else (case first_leaf_matches of None \<Rightarrow> True | Some matches \<Rightarrow> matches orig))
      | _ \<Rightarrow> False)"

definition sys_maxsize :: int where
  "sys_maxsize = 2 ^ 63 - 1"

definition contains_standalone_comments :: "line \<Rightarrow> int \<Rightarrow> bool" where
  "contains_standalone_comments l depth_limit =
     list_ex (\<lambda>f. ltype f = STANDALONE_COMMENT \<and> bracket_depth f \<le> depth_limit) (leaves l)"

section \<open>Pragma comments\<close>

text \<open>
  \<^verbatim>\<open>_PRAGMA_REGEX = re.compile("( *# (?:pylint|pytype|noqa|type(?=: *ignore)):)")\<close>.
  \<open>pragma_match s\<close> is the length of the regular expression's match anchored at the
  start of \<open>s\<close>: all leading spaces, then \<^verbatim>\<open># \<close>, a keyword and a colon; after
  \<^verbatim>\<open>type\<close> the colon must be followed by spaces and \<^verbatim>\<open>ignore\<close> (the lookahead).
\<close>

definition pragma_match :: "string \<Rightarrow> nat option" where
  "pragma_match s =
     (let n = length (takeWhile (\<lambda>c. c = CHR '' '') s);
          r = drop n s
      in if startswith r ''# pylint:'' then Some (n + 9)
         else if startswith r ''# pytype:'' then Some (n + 9)
         else if startswith r ''# noqa:'' then Some (n + 7)
         else if startswith r ''# type:''
                 \<and> startswith (dropWhile (\<lambda>c. c = CHR '' '') (drop 7 r)) ''ignore''
         then Some (n + 7)
         else None)"

text \<open>The leftmost match: its start and its length.\<close>

fun pragma_search :: "string \<Rightarrow> (nat \<times> nat) option" where
  "pragma_search [] = map_option (\<lambda>n. (0, n)) (pragma_match [])"
| "pragma_search (c # cs) =
     (case pragma_match (c # cs) of
        Some n \<Rightarrow> Some (0, n)
      | None \<Rightarrow> map_option (\<lambda>(i, n). (Suc i, n)) (pragma_search cs))"

text \<open>
  \<^verbatim>\<open>_PRAGMA_REGEX.split(s, maxsplit=1)\<close>: with one capture group, the text before the
  match, the match, and the text after it; the whole string when nothing matches.
\<close>

definition pragma_split :: "string \<Rightarrow> string list" where
  "pragma_split s =
     (case pragma_search s of
        None \<Rightarrow> [s]
      | Some (i, n) \<Rightarrow> [take i s, take n (drop i s), drop (i + n) s])"

definition trailing_pragma_comment_length :: "line \<Rightarrow> nat" where
  "trailing_pragma_comment_length l =
     (if leaves l = [] then 0
      else
        fold
          (\<lambda>comment len.
             let parts = pragma_split (leaf_str comment)
             in if length parts = 3 then len + (length (parts ! 1) + length (parts ! 2)) else len)
          (comments_get (comments l) (lid (last (leaves l))))
          0)"

section \<open>Magic trailing commas and comments\<close>

definition has_magic_trailing_comma :: "ext \<Rightarrow> line \<Rightarrow> leaf \<Rightarrow> bool \<Rightarrow> bool" where
  "has_magic_trailing_comma x l closing ensure_removable =
     (if \<not> (ltype closing \<in> CLOSING_BRACKETS
             \<and> leaves l \<noteq> []
             \<and> ltype (last (leaves l)) = COMMA)
      then False
      else if ltype closing = RBRACE then True
      else if ltype closing = RSQB then
        (if (case parent closing of None \<Rightarrow> False | Some p \<Rightarrow> ln_type p = Inr trailer)
            \<and> (case opening_bracket closing of
                  None \<Rightarrow> False
                | Some ob \<Rightarrow> nodes_is_one_sequence_between x ob closing (leaves l) (LSQB, RSQB))
         then False
         else if \<not> ensure_removable then True
         else
           (case parent (last (leaves l)) of
              None \<Rightarrow> False
            | Some cp \<Rightarrow>
                ln_type cp \<noteq> Inr subscriptlist
                \<or> (case opening_bracket closing of
                      None \<Rightarrow> True
                    | Some ob \<Rightarrow>
                        \<not> nodes_is_one_sequence_between x ob closing (leaves l) (LSQB, RSQB))))
      else if is_import x l = Inr True then True
      else
        (case opening_bracket closing of
           None \<Rightarrow> False
         | Some ob \<Rightarrow> \<not> nodes_is_one_sequence_between x ob closing (leaves l) (LPAR, RPAR)))"

text \<open>
  \<^verbatim>\<open>append_comment\<close> mutates the comment token and the line; the model returns the
  method's result, the line and the token afterwards.
\<close>

definition make_standalone :: "leaf \<Rightarrow> leaf" where
  "make_standalone comment = set_prefix [] (set_type STANDALONE_COMMENT comment)"

definition append_comment :: "ext \<Rightarrow> line \<Rightarrow> leaf \<Rightarrow> bool \<times> line \<times> leaf" where
  "append_comment x l comment =
     (if ltype comment = STANDALONE_COMMENT \<and> bt_any_open_brackets x (bracket_tracker l)
      then (False, l, set_prefix [] comment)
      else if ltype comment \<noteq> COMMENT then (False, l, comment)
      else if leaves l = [] then (False, l, make_standalone comment)
      else
        (let last_leaf = last (leaves l)
         in if ltype last_leaf = RPAR
               \<and> lvalue last_leaf = []
               \<and> (case parent last_leaf of None \<Rightarrow> False | Some p \<Rightarrow> ln_leaf_count p \<le> 3)
               \<and> \<not> nodes_is_type_comment x comment []
            then
              (if length (leaves l) < 2 then (False, l, make_standalone comment)
               else
                 (True,
                  l\<lparr>comments :=
                      comments_extend (lid (leaves l ! (length (leaves l) - 2))) [comment]
                        (comments l)\<rparr>,
                  comment))
            else
              (True,
               l\<lparr>comments := comments_extend (lid last_leaf) [comment] (comments l)\<rparr>,
               comment)))"

definition comments_after :: "line \<Rightarrow> leaf \<Rightarrow> leaf list" where
  "comments_after l f = comments_get (comments l) (lid f)"

text \<open>
  \<^verbatim>\<open>remove_trailing_comma\<close>: \<^verbatim>\<open>leaves.pop()\<close> and \<^verbatim>\<open>self.leaves[-1]\<close> raise
  \<^verbatim>\<open>IndexError\<close> on an empty list.
\<close>

definition remove_trailing_comma :: "line \<Rightarrow> error + line" where
  "remove_trailing_comma l =
     (if leaves l = [] then Inl IndexError
      else
        (let trailing_comma = last (leaves l);
             trailing_comma_comments = comments_get (comments l) (lid trailing_comma);
             l1 = l\<lparr>leaves := butlast (leaves l),
                    comments := comments_pop (lid trailing_comma) (comments l)\<rparr>
         in if leaves l1 = [] then Inl IndexError
            else
              Inr (l1\<lparr>comments :=
                        comments_extend (lid (last (leaves l1))) trailing_comma_comments
                          (comments l1)\<rparr>)))"

section \<open>Appending tokens\<close>

definition is_complex_subscript :: "ext \<Rightarrow> line \<Rightarrow> leaf \<Rightarrow> bool" where
  "is_complex_subscript x l f =
     (case bt_get_open_lsqb x (bracket_tracker l) of
        None \<Rightarrow> False
      | Some open_lsqb \<Rightarrow>
          (case next_sibling open_lsqb of
             None \<Rightarrow> False
           | Some subscript_start \<Rightarrow>
               if ln_is_node subscript_start \<and> ln_type subscript_start = Inr listmaker
               then False
               else
                 (case (if ln_is_node subscript_start
                           \<and> ln_type subscript_start = Inr subscriptlist
                        then nodes_child_towards x subscript_start f
                        else Some subscript_start) of
                    None \<Rightarrow> False
                  | Some start \<Rightarrow>
                      list_ex
                        (\<lambda>n. case ln_type n of
                                Inl t \<Rightarrow> False
                              | Inr s \<Rightarrow> s \<in> nodes_TEST_DESCENDANTS x)
                        (pre_order start))))"

text \<open>
  \<^verbatim>\<open>append(leaf, preformatted, track_bracket)\<close>. The token is mutated in place (prefix,
  bracket depth, opening bracket, and by \<^verbatim>\<open>append_comment\<close> its type), so the model
  returns the line and the token after the call. The only exception that the method's
  own code can raise is the \<^verbatim>\<open>IndexError\<close> of \<^verbatim>\<open>remove_trailing_comma\<close>.
\<close>

definition has_value :: "leaf \<Rightarrow> bool" where
  "has_value f = (ltype f \<in> BRACKETS \<or> py_strip (lvalue f) \<noteq> [])"

definition append_store :: "ext \<Rightarrow> line \<Rightarrow> leaf \<Rightarrow> line \<times> leaf" where
  "append_store x l f =
     (case append_comment x l f of
        (accepted, l', f') \<Rightarrow>
          if \<not> accepted then (l'\<lparr>leaves := leaves l' @ [f']\<rparr>, f') else (l', f'))"

definition append_track :: "ext \<Rightarrow> line \<Rightarrow> leaf \<Rightarrow> error + (line \<times> leaf)" where
  "append_track x l f =
     (case bt_mark x (bracket_tracker l) f of
        (bt', d, ob) \<Rightarrow>
          (let f' = set_bracket d ob f;
               l' = l\<lparr>bracket_tracker := bt'\<rparr>
           in if mode_magic_trailing_comma (mode l') then
                (if has_magic_trailing_comma x l' f' False
                 then Inr (l'\<lparr>magic_trailing_comma := Some f'\<rparr>, f')
                 else Inr (l', f'))
              else if has_magic_trailing_comma x l' f' True then
                ebind (remove_trailing_comma l') (\<lambda>l''. Inr (l'', f'))
              else Inr (l', f')))"

definition append :: "ext \<Rightarrow> line \<Rightarrow> leaf \<Rightarrow> bool \<Rightarrow> bool \<Rightarrow> error + (line \<times> leaf)" where
  "append x l f preformatted track_bracket =
     (if \<not> has_value f then Inr (l, f)
      else
        (let l1 = (if COLON = ltype f \<and> is_class_paren_empty l
                   then l\<lparr>leaves := take (length (leaves l) - 2) (leaves l)\<rparr>
                   else l);
             f1 = (if leaves l1 \<noteq> [] \<and> \<not> preformatted
                   then set_prefix (prefix f @ nodes_whitespace x f (is_complex_subscript x l1 f)) f
                   else f)
         in ebind
              (if inside_brackets l1 \<or> \<not> preformatted \<or> track_bracket
               then append_track x l1 f1
               else Inr (l1, f1))
              (\<lambda>(l2, f2). Inr (append_store x l2 f2))))"

definition append_safe :: "ext \<Rightarrow> line \<Rightarrow> leaf \<Rightarrow> bool \<Rightarrow> error + (line \<times> leaf)" where
  "append_safe x l f preformatted =
     (if bt_depth (bracket_tracker l) = 0 \<and> is_comment l
      then Inl (ValueError ''cannot append to standalone comments'')
      else if bt_depth (bracket_tracker l) = 0 \<and> leaves l \<noteq> [] \<and> ltype f = STANDALONE_COMMENT
      then Inl (ValueError ''cannot append standalone comments to a populated line'')
      else append x l f preformatted False)"

section \<open>Rendering\<close>

text \<open>
  \<^verbatim>\<open>enumerate_with_length\<close> is a generator; the model is the list of what it yields. It
  stops at the first leaf whose value contains a newline.
\<close>

fun with_length :: "line \<Rightarrow> (nat \<times> leaf) list \<Rightarrow> (nat \<times> leaf \<times> nat) list" where
  "with_length l [] = []"
| "with_length l ((index, f) # rest) =
     (if newline \<in> set (lvalue f) then []
      else (index, f,
            fold (\<lambda>comment len. len + length (lvalue comment)) (comments_after l f)
              (length (prefix f) + length (lvalue f)))
           # with_length l rest)"

definition enumerate_reversed :: "'a list \<Rightarrow> (nat \<times> 'a) list" where
  "enumerate_reversed xs = rev (zip [0..<length xs] xs)"

definition enumerate_with_length :: "line \<Rightarrow> bool \<Rightarrow> (nat \<times> leaf \<times> nat) list" where
  "enumerate_with_length l reversed =
     with_length l
       (if reversed then enumerate_reversed (leaves l) else zip [0..<length (leaves l)] (leaves l))"

text \<open>
  \<^verbatim>\<open>_str_inner\<close>: \<^verbatim>\<open>next(leaves)\<close> raises \<^verbatim>\<open>StopIteration\<close> on a line that has comments
  but no leaves.
\<close>

definition str_inner :: "ext \<Rightarrow> line \<Rightarrow> bool \<Rightarrow> error + string" where
  "str_inner x l for_width_calculation =
     (if \<not> line_bool l then Inr [newline]
      else
        (case leaves l of
           [] \<Rightarrow> Inl StopIteration
         | first # rest \<Rightarrow>
             Inr (prefix first @ indent_render x (mode l) (depth l) for_width_calculation
                  @ lvalue first
                  @ concat (map leaf_str rest)
                  @ concat (map leaf_str (concat (map snd (comments l))))
                  @ [newline])))"

definition render_as_str_for_width_calculation :: "ext \<Rightarrow> line \<Rightarrow> error + string" where
  "render_as_str_for_width_calculation x l = str_inner x l True"

definition line_to_string :: "ext \<Rightarrow> line \<Rightarrow> error + string" where
  "line_to_string x l = ebind (str_inner x l False) (\<lambda>s. Inr (strip_newlines s))"

section \<open>The line-fit judge\<close>

text \<open>
  State of the walk over the leaves in the multi-line-string branch of
  \<^verbatim>\<open>is_line_short_enough\<close>. \<open>max_level_to_update = None\<close> stands for \<^verbatim>\<open>math.inf\<close>.
\<close>

record mls_state =
  commas :: "int list"
  multiline_string :: "leaf option"
  multiline_string_contexts :: "ln list"
  max_level_to_update :: "int option"

datatype 'a flow = Return bool | Continue 'a

text \<open>\<^verbatim>\<open>xs[i] += 1\<close> with Python's indexing: a negative index counts from the end.\<close>

definition py_incr :: "int list \<Rightarrow> int \<Rightarrow> error + int list" where
  "py_incr xs i =
     (let n = int (length xs);
          j = (if i < 0 then n + i else i)
      in if 0 \<le> j \<and> j < n then Inr (xs[nat j := xs ! nat j + 1]) else Inl IndexError)"

definition mls_enter_level :: "leaf \<Rightarrow> mls_state \<Rightarrow> error + mls_state flow" where
  "mls_enter_level f st =
     (if max_level_to_update st \<noteq> None then Inr (Continue st)
      else if bracket_depth f + 1 > int (length (commas st))
      then Inr (Continue (st\<lparr>commas := commas st @ [0]\<rparr>))
      else if bracket_depth f + 1 < int (length (commas st)) then
        (if commas st = [] then Inl IndexError
         else
           (let had_comma = last (commas st);
                st1 = st\<lparr>commas := butlast (commas st)\<rparr>
            in case multiline_string st1 of
                 None \<Rightarrow> Inr (Continue st1)
               | Some ms \<Rightarrow>
                   if bracket_depth ms = bracket_depth f + 1 then
                     (if had_comma > 0 then Inr (Return False)
                      else Inr (Continue (st1\<lparr>max_level_to_update := Some (bracket_depth f)\<rparr>)))
                   else Inr (Continue st1)))
      else Inr (Continue st))"

definition mls_count_comma :: "nat \<Rightarrow> nat \<Rightarrow> leaf \<Rightarrow> mls_state \<Rightarrow> error + mls_state" where
  "mls_count_comma n i f st =
     (if (case max_level_to_update st of None \<Rightarrow> True | Some m \<Rightarrow> bracket_depth f \<le> m)
         \<and> ltype f = COMMA
      then
        (if \<not> ((case prev_sibling f of
                    None \<Rightarrow> True
                  | Some p \<Rightarrow> list_ex (ln_eq p) (multiline_string_contexts st))
                 \<and> int i = int n - 1)
         then ebind (py_incr (commas st) (bracket_depth f)) (\<lambda>cs. Inr (st\<lparr>commas := cs\<rparr>))
         else Inr st)
      else Inr st)"

definition mls_step :: "ext \<Rightarrow> string \<Rightarrow> nat \<Rightarrow> nat \<Rightarrow> leaf \<Rightarrow> mls_state \<Rightarrow> error + mls_state flow" where
  "mls_step x line_str n i f st =
     ebind (mls_enter_level f st)
       (\<lambda>r. case r of
              Return b \<Rightarrow> Inr (Return b)
            | Continue st1 \<Rightarrow>
                ebind (mls_count_comma n i f st1)
                  (\<lambda>st2.
                     let st3 = (case max_level_to_update st2 of
                                  None \<Rightarrow> st2
                                | Some m \<Rightarrow>
                                    st2\<lparr>max_level_to_update := Some (min m (bracket_depth f))\<rparr>)
                     in if nodes_is_multiline_string x f then
                          (if length (multiline_string_contexts st3) > 0 then Inr (Return False)
                           else
                             Inr (Continue
                               (st3\<lparr>multiline_string := Some f,
                                    multiline_string_contexts :=
                                      takeWhile (\<lambda>ctx. str_contains line_str (ln_str ctx))
                                        (leaf_ln f # ancestors f)\<rparr>)))
                        else Inr (Continue st3)))"

fun mls_loop :: "ext \<Rightarrow> string \<Rightarrow> nat \<Rightarrow> (nat \<times> leaf) list \<Rightarrow> mls_state \<Rightarrow> error + mls_state flow" where
  "mls_loop x line_str n [] st = Inr (Continue st)"
| "mls_loop x line_str n ((i, f) # rest) st =
     (case mls_step x line_str n i f st of
        Inl e \<Rightarrow> Inl e
      | Inr (Return b) \<Rightarrow> Inr (Return b)
      | Inr (Continue st') \<Rightarrow> mls_loop x line_str n rest st')"

definition is_line_short_enough :: "ext \<Rightarrow> line \<Rightarrow> mode \<Rightarrow> string \<Rightarrow> error + bool" where
  "is_line_short_enough x l m line_str_arg =
     ebind (if line_str_arg = [] then line_to_string x l else Inr line_str_arg)
       (\<lambda>line_str0.
     ebind (if use_tabs m
            then ebind (render_as_str_for_width_calculation x l) (\<lambda>s. Inr (strip_newlines s))
            else Inr line_str0)
       (\<lambda>line_str.
          let width = (if preview_on m then strings_str_width x else length);
              effective_length =
                (if wrap_pragma_comments m then int (width line_str)
                 else int (width line_str) - int (trailing_pragma_comment_length l))
          in if \<not> has_preview m multiline_string_handling then
               Inr (effective_length \<le> line_length m
                    \<and> newline \<notin> set line_str
                    \<and> \<not> contains_standalone_comments l sys_maxsize)
             else if contains_standalone_comments l sys_maxsize then Inr False
             else if newline \<notin> set line_str then Inr (effective_length \<le> line_length m)
             else
               (let first = takeWhile (\<lambda>c. c \<noteq> newline) line_str;
                    last_part = rev (takeWhile (\<lambda>c. c \<noteq> newline) (rev line_str))
                in if int (width first) > line_length m \<or> int (width last_part) > line_length m
                   then Inr False
                   else
                     (case mls_loop x line_str (length (leaves l))
                             (zip [0..<length (leaves l)] (leaves l))
                             \<lparr>commas = [], multiline_string = None,
                              multiline_string_contexts = [], max_level_to_update = None\<rparr> of
                        Inl e \<Rightarrow> Inl e
                      | Inr (Return b) \<Rightarrow> Inr b
                      | Inr (Continue st) \<Rightarrow>
                          if length (multiline_string_contexts st) = 0 then Inr True
                          else Inr (list_all (\<lambda>val. val = 0) (commas st))))))"

section \<open>Omitting optional parentheses\<close>

text \<open>
  Modelled from the spec: \<^verbatim>\<open>BracketTracker.max_delimiter_priority\<close> and
  \<^verbatim>\<open>BracketTracker.delimiter_count_with_priority\<close> belong to \<^verbatim>\<open>cercis.brackets\<close>, which
  is not among the sources. The spec has the tracker keep a priority for each delimiter
  and answer queries for the maximum priority and for the number of delimiters with a
  given priority. The maximum of no priorities raises, as Python's \<^verbatim>\<open>max\<close> does.
\<close>

definition max_delimiter_priority :: "bracket_tracker \<Rightarrow> error + int" where
  "max_delimiter_priority bt =
     (case map snd (delimiters bt) of
        [] \<Rightarrow> Inl (ValueError ''max() arg is an empty sequence'')
      | p # ps \<Rightarrow> Inr (fold max ps p))"

definition delimiter_count_with_priority :: "bracket_tracker \<Rightarrow> int \<Rightarrow> nat" where
  "delimiter_count_with_priority bt priority =
     length (filter (\<lambda>p. p = priority) (map snd (delimiters bt)))"

record rhs_result =
  head :: line
  body :: line
  tail :: line
  rhs_opening_bracket :: leaf
  rhs_closing_bracket :: leaf

text \<open>
  The loop of \<^verbatim>\<open>_can_omit_opening_paren\<close>: \<open>None\<close> when it leaves through \<^verbatim>\<open>break\<close>,
  otherwise the last index it saw (\<open>-1\<close> before the first).
\<close>

fun omit_opening_loop ::
  "leaf \<Rightarrow> int \<Rightarrow> (nat \<times> leaf \<times> nat) list \<Rightarrow> bool \<Rightarrow> int \<Rightarrow> int \<Rightarrow> int option" where
  "omit_opening_loop first limit [] remainder len index = Some index"
| "omit_opening_loop first limit ((i, f, leaf_length) # rest) remainder len index =
     (let remainder1 =
            (if ltype f \<in> CLOSING_BRACKETS \<and> opening_bracket f = Some (lid first)
             then True else remainder)
      in if remainder1 then
           (if len + int leaf_length > limit then None
            else
              omit_opening_loop first limit rest
                (if ltype f \<in> OPENING_BRACKETS then False else remainder1)
                (len + int leaf_length) (int i))
         else omit_opening_loop first limit rest remainder1 len (int i))"

definition can_omit_opening_paren :: "ext \<Rightarrow> line \<Rightarrow> leaf \<Rightarrow> int \<Rightarrow> bool" where
  "can_omit_opening_paren x l first limit =
     (case omit_opening_loop first limit (enumerate_with_length l False) False
             (indent_calc_total_width x (mode l) (depth l)) (- 1) of
        None \<Rightarrow> False
      | Some index \<Rightarrow> int (length (leaves l)) = index + 1)"

fun omit_closing_loop ::
  "leaf \<Rightarrow> int \<Rightarrow> (nat \<times> leaf \<times> nat) list \<Rightarrow> int \<Rightarrow> bool \<Rightarrow> bool" where
  "omit_closing_loop last_leaf limit [] len seen_other_brackets = False"
| "omit_closing_loop last_leaf limit ((i, f, leaf_length) # rest) len seen_other_brackets =
     (if opening_bracket last_leaf = Some (lid f) then
        (if seen_other_brackets \<or> len + int leaf_length \<le> limit then True
         else omit_closing_loop last_leaf limit rest (len + int leaf_length) seen_other_brackets)
      else if ltype f \<in> OPENING_BRACKETS
      then omit_closing_loop last_leaf limit rest (len + int leaf_length) True
      else omit_closing_loop last_leaf limit rest (len + int leaf_length) seen_other_brackets)"

definition can_omit_closing_paren :: "ext \<Rightarrow> line \<Rightarrow> leaf \<Rightarrow> int \<Rightarrow> bool" where
  "can_omit_closing_paren x l last_leaf limit =
     omit_closing_loop last_leaf limit (enumerate_with_length l False)
       (indent_calc_total_width x (mode l) (depth l)) False"

text \<open>What follows the delimiter checks: the line must have two leaves (an assertion).\<close>

definition omit_by_brackets :: "ext \<Rightarrow> line \<Rightarrow> int \<Rightarrow> error + bool" where
  "omit_by_brackets x l limit =
     (if \<not> length (leaves l) \<ge> 2 then Inl (AssertionError ''Stranded delimiter'')
      else
        (let first = leaves l ! 0;
             second = leaves l ! 1;
             penultimate = leaves l ! (length (leaves l) - 2);
             last_leaf = last (leaves l)
         in if ltype first \<in> OPENING_BRACKETS \<and> ltype second \<notin> CLOSING_BRACKETS
               \<and> can_omit_opening_paren x l first limit
            then Inr True
            else if ltype last_leaf = RPAR \<or> ltype last_leaf = RBRACE
                    \<or> (ltype last_leaf = RSQB
                        \<and> (case parent last_leaf of
                              None \<Rightarrow> False
                            | Some p \<Rightarrow> ln_type p \<noteq> Inr trailer))
            then
              (if ltype penultimate \<in> OPENING_BRACKETS then Inr False
               else if nodes_is_multiline_string x first then Inr True
               else if can_omit_closing_paren x l last_leaf limit then Inr True
               else Inr False)
            else Inr False))"

definition can_omit_invisible_parens :: "ext \<Rightarrow> rhs_result \<Rightarrow> int \<Rightarrow> error + bool" where
  "can_omit_invisible_parens x rhs limit =
     (let l = body rhs;
          bt = bracket_tracker l
      in if delimiters bt = [] then Inr True
         else
           ebind (max_delimiter_priority bt)
             (\<lambda>max_priority.
                let delimiter_count = delimiter_count_with_priority bt max_priority
                in if delimiter_count > 1 then Inr False
                   else
                     ebind
                       (if delimiter_count = 1 then
                          eand
                            (Inr (has_preview (mode l) wrap_multiple_context_managers_in_parens
                                  \<and> max_priority = brackets_COMMA_PRIORITY x))
                            (is_with_or_async_with_stmt x (head rhs))
                        else Inr False)
                       (\<lambda>reads_better_parenthesized.
                          if reads_better_parenthesized then Inr False
                          else if max_priority = brackets_DOT_PRIORITY x then Inr True
                          else omit_by_brackets x l limit)))"

section \<open>The blank-line tracker\<close>

text \<open>
  \<^verbatim>\<open>LinesBlock\<close> objects are shared and one of them is assigned to after it has been
  returned (\<^verbatim>\<open>comment_to_add_newlines.before = ...\<close>), so they live in a store,
  \<open>blocks\<close>, and are referred to by address; \<open>next_block\<close> is the next free address.
\<close>

record lines_block =
  lb_mode :: mode
  lb_previous_block :: "nat option"
  original_line :: line
  before :: int
  content_lines :: "string list"
  after :: int

record empty_line_tracker =
  elt_mode :: mode
  previous_line :: "line option"
  previous_block :: "nat option"
  previous_defs :: "line list"
  semantic_leading_comment :: "nat option"
  blocks :: "nat \<Rightarrow> lines_block"
  next_block :: nat

text \<open>
  The first leaf's newlines are counted, capped, and its prefix is cleared in place; the
  line afterwards is returned with the count.
\<close>

definition consume_newlines :: "mode \<Rightarrow> line \<Rightarrow> int \<times> line" where
  "consume_newlines m current_line =
     (let max_allowed =
            (if length (depth current_line) = 0 then (if is_pyi m then 1 else 2) else 1)
      in case leaves current_line of
           [] \<Rightarrow> (0, current_line)
         | first_leaf # rest \<Rightarrow>
             (min (int (count_newlines (prefix first_leaf))) max_allowed,
              current_line\<lparr>leaves := set_prefix [] first_leaf # rest\<rparr>))"

text \<open>The body of the loop that pops \<^verbatim>\<open>previous_defs\<close>: the new value of \<^verbatim>\<open>before\<close>.\<close>

definition before_after_def ::
  "mode \<Rightarrow> line \<Rightarrow> line option \<Rightarrow> line \<Rightarrow> int \<Rightarrow> error + int" where
  "before_after_def m current_line prev top_def before_count =
     (if is_pyi m then
        (case prev of
           None \<Rightarrow> Inl (AssertionError [])
         | Some prev_line \<Rightarrow>
             if depth current_line \<noteq> [] \<and> \<not> is_def current_line \<and> is_def prev_line
             then Inr (min 1 before_count)
             else
               ebind
                 (eand (Inr (has_preview m blank_line_after_nested_stub_class))
                    (eand (is_class top_def)
                       (ebind (is_stub_class top_def) (\<lambda>stub. Inr (\<not> stub)))))
                 (\<lambda>after_class.
                    if after_class then Inr 1
                    else if depth current_line \<noteq> [] then Inr 0
                    else Inr 1))
      else if depth current_line \<noteq> [] then Inr 1
      else if depth top_def \<noteq> [] then
        (case leaves current_line of
           [] \<Rightarrow> Inl IndexError
         | first_leaf # rest \<Rightarrow>
             if ltype (last (leaves current_line)) = COLON
                \<and> lvalue first_leaf
                    \<notin> set [''with'', ''try'', ''for'', ''while'', ''if'', ''match'']
             then Inr 1
             else Inr 2)
      else Inr 2)"

function pop_previous_defs ::
  "mode \<Rightarrow> line \<Rightarrow> line option \<Rightarrow> line list \<Rightarrow> int \<Rightarrow> error + (int \<times> line list)" where
  "pop_previous_defs m current_line prev defs before_count =
     (if defs \<noteq> [] \<and> length (depth (last defs)) \<ge> length (depth current_line) then
        (case before_after_def m current_line prev (last defs) before_count of
           Inl e \<Rightarrow> Inl e
         | Inr b \<Rightarrow> pop_previous_defs m current_line prev (butlast defs) b)
      else Inr (before_count, defs))"
  by pat_completeness auto
termination
  by (relation "measure (\<lambda>(m, current_line, prev, defs, before_count). length defs)") auto

declare pop_previous_defs.simps [simp del]

text \<open>
  The comment block that receives the blank lines of the definition after it.
  \<open>None\<close>: the method returns \<open>(0, 0)\<close> at once; \<open>Some target\<close>: it goes on with
  \<^verbatim>\<open>comment_to_add_newlines = target\<close>.
\<close>

definition hoist_target ::
  "empty_line_tracker \<Rightarrow> line \<Rightarrow> line \<Rightarrow> int \<Rightarrow> error + nat option option" where
  "hoist_target t prev_line current_line before_count =
     (if is_comment prev_line
         \<and> length (depth prev_line) = length (depth current_line)
         \<and> before_count = 0
      then
        (case semantic_leading_comment t of
           None \<Rightarrow> Inr None
         | Some slc \<Rightarrow>
             (case lb_previous_block (blocks t slc) of
                None \<Rightarrow> Inr None
              | Some pb \<Rightarrow>
                  ebind (is_class (original_line (blocks t pb)))
                    (\<lambda>cls.
                       if \<not> cls
                          \<and> \<not> opens_block (original_line (blocks t pb))
                          \<and> before (blocks t slc) \<le> 1
                       then Inr (Some (Some slc))
                       else Inr None)))
      else Inr (Some None))"

definition class_or_def_newlines ::
  "mode \<Rightarrow> line \<Rightarrow> line \<Rightarrow> int \<Rightarrow> error + int" where
  "class_or_def_newlines m prev_line current_line before_count =
     (if is_pyi m then
        ebind (eor (is_class current_line) (is_class prev_line))
          (\<lambda>a_class.
             if a_class then
               (if length (depth prev_line) < length (depth current_line) then Inr 0
                else if length (depth prev_line) > length (depth current_line) then Inr 1
                else
                  ebind (eand (is_stub_class current_line) (is_stub_class prev_line))
                    (\<lambda>stubs. if stubs then Inr 0 else Inr 1))
             else
               ebind (eor (Inr (is_def current_line)) (is_decorator current_line))
                 (\<lambda>def_or_decorator.
                    if def_or_decorator \<and> \<not> is_def prev_line then
                      (if depth current_line \<noteq> [] then Inr (min 1 before_count) else Inr 1)
                    else if length (depth prev_line) > length (depth current_line) then Inr 1
                    else Inr 0))
      else Inr (if depth current_line \<noteq> [] then 1 else 2))"

text \<open>
  \<^verbatim>\<open>_maybe_empty_lines_for_class_or_def\<close>: the pair \<open>(before, after)\<close> and the tracker
  afterwards (the definition stack and, when blank lines are hoisted, the store).
  \<open>class_or_def_spacing\<close> is the method from its second statement on, the definition
  having been pushed.
\<close>

definition hoist_newlines ::
  "empty_line_tracker \<Rightarrow> nat option \<Rightarrow> int \<Rightarrow> (int \<times> int) \<times> empty_line_tracker" where
  "hoist_newlines t comment_to_add_newlines newlines =
     (case comment_to_add_newlines of
        None \<Rightarrow> ((newlines, 0), t)
      | Some c \<Rightarrow>
          (case lb_previous_block (blocks t c) of
             None \<Rightarrow> ((newlines, 0), t)
           | Some pb \<Rightarrow>
               ((0, 0),
                t\<lparr>blocks :=
                    (blocks t)
                      (c := (blocks t c)
                         \<lparr>before := max (before (blocks t c)) newlines - after (blocks t pb)\<rparr>)\<rparr>)))"

definition class_or_def_spacing ::
  "empty_line_tracker \<Rightarrow> line \<Rightarrow> int \<Rightarrow> error + ((int \<times> int) \<times> empty_line_tracker)" where
  "class_or_def_spacing t1 current_line before_count =
     (case previous_line t1 of
        None \<Rightarrow> Inr ((0, 0), t1)
      | Some prev_line \<Rightarrow>
          ebind (is_decorator prev_line)
            (\<lambda>prev_decorator.
               if prev_decorator then
                 ebind (eand (Inr (is_pyi (elt_mode t1))) (is_stub_class current_line))
                   (\<lambda>stub. if stub then Inr ((0, 1), t1) else Inr ((0, 0), t1))
               else
                 ebind
                   (eand (Inr (length (depth prev_line) < length (depth current_line)))
                      (eor (is_class prev_line) (Inr (is_def prev_line))))
                   (\<lambda>opens_scope.
                      if opens_scope then Inr ((0, 0), t1)
                      else
                        ebind (hoist_target t1 prev_line current_line before_count)
                          (\<lambda>target.
                             case target of
                               None \<Rightarrow> Inr ((0, 0), t1)
                             | Some comment_to_add_newlines \<Rightarrow>
                                 ebind
                                   (class_or_def_newlines (elt_mode t1) prev_line
                                      current_line before_count)
                                   (\<lambda>newlines.
                                      Inr (hoist_newlines t1 comment_to_add_newlines
                                             newlines))))))"

definition maybe_empty_lines_for_class_or_def ::
  "empty_line_tracker \<Rightarrow> line \<Rightarrow> int \<Rightarrow> error + ((int \<times> int) \<times> empty_line_tracker)" where
  "maybe_empty_lines_for_class_or_def t current_line before_count =
     ebind (is_decorator current_line)
       (\<lambda>decorator.
          class_or_def_spacing
            (if \<not> decorator
             then t\<lparr>previous_defs := previous_defs t @ [current_line]\<rparr>
             else t)
            current_line before_count)"

text \<open>
  The pattern \<^verbatim>\<open>self.previous_line and P(self.previous_line)\<close>: the previous line must
  not be \<^verbatim>\<open>None\<close> and must have leaves or comments.
\<close>

definition previous_line_and :: "line option \<Rightarrow> (line \<Rightarrow> error + bool) \<Rightarrow> error + bool" where
  "previous_line_and lo P =
     (case lo of None \<Rightarrow> Inr False | Some l \<Rightarrow> if line_bool l then P l else Inr False)"

text \<open>
  \<^verbatim>\<open>_maybe_empty_lines\<close>: the pair \<open>(before, after)\<close>, the tracker afterwards, and the
  current line afterwards (its first leaf's prefix is cleared).
\<close>

definition maybe_empty_lines_rest ::
  "ext \<Rightarrow> empty_line_tracker \<Rightarrow> line \<Rightarrow> int \<Rightarrow> error + (int \<times> int)" where
  "maybe_empty_lines_rest x t current_line before_count =
     ebind
       (previous_line_and (previous_line t)
          (\<lambda>prev_line.
             eand (is_import x prev_line)
               (eand (ebind (is_import x current_line) (\<lambda>b. Inr (\<not> b)))
                  (Inr (\<not> is_fmt_pass_converted current_line (Some (nodes_is_import x))
                        \<and> length (depth current_line) = length (depth prev_line))))))
       (\<lambda>after_import.
          if after_import then Inr ((if before_count \<noteq> 0 then before_count else 1), 0)
          else
            ebind
              (previous_line_and (previous_line t)
                 (\<lambda>prev_line.
                    eand (is_class prev_line) (is_triple_quoted_string current_line)))
              (\<lambda>docstring.
                 if docstring then Inr (before_count, 1)
                 else
                   ebind
                     (previous_line_and (previous_line t)
                        (\<lambda>prev_line. Inr (opens_block prev_line)))
                     (\<lambda>in_new_block.
                        if in_new_block then Inr (0, 0) else Inr (before_count, 0))))"

definition maybe_empty_lines_priv ::
  "ext \<Rightarrow> empty_line_tracker \<Rightarrow> line
     \<Rightarrow> error + ((int \<times> int) \<times> empty_line_tracker \<times> line)" where
  "maybe_empty_lines_priv x t line_in =
     (case consume_newlines (elt_mode t) line_in of
        (before0, current_line) \<Rightarrow>
          ebind
            (pop_previous_defs (elt_mode t) current_line (previous_line t) (previous_defs t)
               before0)
            (\<lambda>(before_count, defs).
               let t1 = t\<lparr>previous_defs := defs\<rparr>
               in ebind
                    (eor (is_decorator current_line)
                       (eor (Inr (is_def current_line)) (is_class current_line)))
                    (\<lambda>class_or_def.
                       if class_or_def then
                         ebind (maybe_empty_lines_for_class_or_def t1 current_line before_count)
                           (\<lambda>(ba, t2). Inr (ba, t2, current_line))
                       else
                         ebind (maybe_empty_lines_rest x t1 current_line before_count)
                           (\<lambda>ba. Inr (ba, t1, current_line)))))"

text \<open>
  \<^verbatim>\<open>maybe_empty_lines\<close>: the tracker afterwards and the address of the block it returns.
\<close>

definition track_leading_comment ::
  "empty_line_tracker \<Rightarrow> line \<Rightarrow> int \<Rightarrow> nat \<Rightarrow> error + nat option" where
  "track_leading_comment t current_line before_count block =
     (if is_comment current_line then
        ebind
          (case previous_line t of
             None \<Rightarrow> Inr True
           | Some prev_line \<Rightarrow>
               eand (ebind (is_decorator prev_line) (\<lambda>b. Inr (\<not> b)))
                 (Inr ((\<not> is_comment prev_line \<or> before_count \<noteq> 0)
                       \<and> (semantic_leading_comment t = None \<or> before_count \<noteq> 0))))
          (\<lambda>leading. if leading then Inr (Some block) else Inr (semantic_leading_comment t))
      else
        ebind (eor (ebind (is_decorator current_line) (\<lambda>b. Inr (\<not> b)))
                 (Inr (before_count \<noteq> 0)))
          (\<lambda>clear. if clear then Inr None else Inr (semantic_leading_comment t)))"

definition maybe_empty_lines ::
  "ext \<Rightarrow> empty_line_tracker \<Rightarrow> line \<Rightarrow> error + (empty_line_tracker \<times> nat)" where
  "maybe_empty_lines x t line_in =
     ebind (maybe_empty_lines_priv x t line_in)
       (\<lambda>((before0, after0), t1, current_line).
          let previous_after =
                (case previous_block t1 of None \<Rightarrow> 0 | Some pb \<Rightarrow> after (blocks t1 pb));
              before1 = (if previous_line t1 = None then 0 else before0 - previous_after);
              block = next_block t1;
              t2 = t1\<lparr>blocks :=
                        (blocks t1)
                          (block :=
                             \<lparr>lb_mode = elt_mode t1,
                              lb_previous_block = previous_block t1,
                              original_line = current_line,
                              before = before1,
                              content_lines = [],
                              after = after0\<rparr>),
                      next_block := Suc block\<rparr>
          in ebind (track_leading_comment t2 current_line before1 block)
               (\<lambda>slc.
                  Inr (t2\<lparr>semantic_leading_comment := slc,
                          previous_line := Some current_line,
                          previous_block := Some block\<rparr>,
                       block)))"

section \<open>Sample collaborators, tokens and lines\<close>

text \<open>
  Modelled from the spec: \<^verbatim>\<open>is_one_sequence_between\<close> belongs to \<^verbatim>\<open>cercis.nodes\<close>, which
  is not among the sources. The spec has a bracket pair span "exactly one comma-free
  element" (possibly with its trailing comma) or "more than one comma-separated
  element": the pair must be of the requested kind, and fewer than two commas may stand
  directly inside it. It serves as the collaborator in the concrete examples only.
\<close>

definition is_one_sequence_between :: "nat \<Rightarrow> leaf \<Rightarrow> leaf list \<Rightarrow> tok \<times> tok \<Rightarrow> bool" where
  "is_one_sequence_between ob closing ls brackets =
     (case dropWhile (\<lambda>f. lid f \<noteq> ob) ls of
        [] \<Rightarrow> False
      | opening # rest \<Rightarrow>
          (ltype opening, ltype closing) = brackets
          \<and> length
               (filter
                  (\<lambda>f. ltype f = COMMA \<and> bracket_depth f = bracket_depth closing + 1)
                  (takeWhile (\<lambda>f. lid f \<noteq> lid closing) rest))
             < 2)"

definition sample_ext :: ext where
  "sample_ext =
     \<lparr>nodes_whitespace = (\<lambda>f complex_subscript. []),
      nodes_is_import = (\<lambda>f. ltype f = NAME \<and> (lvalue f = ''import'' \<or> lvalue f = ''from'')),
      nodes_is_with_or_async_with_stmt = (\<lambda>f. ltype f = NAME \<and> lvalue f = ''with''),
      nodes_is_multiline_string = (\<lambda>f. ltype f = STRING \<and> newline \<in> set (lvalue f)),
      nodes_is_one_sequence_between = is_one_sequence_between,
      nodes_is_type_comment = (\<lambda>f suffix. startswith (lvalue f) (''# type:'' @ suffix)),
      nodes_child_towards = (\<lambda>n f. None),
      nodes_TEST_DESCENDANTS = {},
      bt_mark = (\<lambda>bt f. (bt, bracket_depth f, opening_bracket f)),
      bt_any_open_brackets = (\<lambda>bt. bt_depth bt \<noteq> 0),
      bt_get_open_lsqb = (\<lambda>bt. None),
      brackets_COMMA_PRIORITY = 18,
      brackets_DOT_PRIORITY = 1,
      indent_render = (\<lambda>m d for_width_calculation. replicate (4 * length d) CHR '' ''),
      indent_calc_total_width = (\<lambda>m d. 4 * int (length d)),
      strings_str_width = length\<rparr>"

definition sample_mode :: mode where
  "sample_mode =
     \<lparr>line_length = 5, use_tabs = False, preview_on = False, wrap_pragma_comments = False,
      is_pyi = False, mode_magic_trailing_comma = True, has_preview = (\<lambda>f. False)\<rparr>"

text \<open>A token with identity \<open>i\<close> at bracket depth \<open>d\<close>, and a line of such tokens.\<close>

definition tk :: "nat \<Rightarrow> tok \<Rightarrow> string \<Rightarrow> int \<Rightarrow> leaf" where
  "tk i t v d = Leaf i t v [] d None 1 [] None None None"

definition sample_tracker :: "int \<Rightarrow> (nat \<times> int) list \<Rightarrow> bracket_tracker" where
  "sample_tracker d ds = \<lparr>bt_depth = d, delimiters = ds, bt_internal = 0\<rparr>"

definition line_of :: "mode \<Rightarrow> leaf list \<Rightarrow> line" where
  "line_of m ls =
     \<lparr>mode = m, depth = [], leaves = ls, comments = [],
      bracket_tracker = sample_tracker 0 [], inside_brackets = False,
      should_split_rhs = False, magic_trailing_comma = None\<rparr>"

text \<open>The invariant of the leaf sequence: no leaf has the inline-comment type.\<close>

definition no_inline_comment_leaf :: "line \<Rightarrow> bool" where
  "no_inline_comment_leaf l = list_all (\<lambda>f. ltype f \<noteq> COMMENT) (leaves l)"

definition sample_comment :: leaf where
  "sample_comment = tk 9 COMMENT ''# hi'' 0"

text \<open>An invisible closing parenthesis whose parent wraps a single name.\<close>

definition invisible_rpar :: "nat \<Rightarrow> leaf" where
  "invisible_rpar i =
     Leaf i RPAR [] [] 0 None 0
       [NodeN (OTHER_SYM 0) [LeafN LPAR [] [], LeafN NAME [] ''x'', LeafN RPAR [] []]]
       None None None"

text \<open>
  The condition under which \<^verbatim>\<open>append_safe\<close> is said to raise, in the words of the
  specification's section on the logical line: a non-comment token after a pure
  standalone comment, or a standalone comment appended to a line that has content and
  non-zero bracket depth.
\<close>

definition claimed_append_safe_raises :: "line \<Rightarrow> leaf \<Rightarrow> bool" where
  "claimed_append_safe_raises l f =
     ((is_comment l \<and> ltype f \<noteq> COMMENT \<and> ltype f \<noteq> STANDALONE_COMMENT)
      \<or> (ltype f = STANDALONE_COMMENT \<and> line_bool l \<and> bt_depth (bracket_tracker l) \<noteq> 0))"

definition sample_standalone :: leaf where
  "sample_standalone = tk 8 STANDALONE_COMMENT ''# c'' 0"

definition line_at_depth :: "int \<Rightarrow> leaf list \<Rightarrow> line" where
  "line_at_depth d ls = (line_of sample_mode ls)\<lparr>bracket_tracker := sample_tracker d []\<rparr>"

text \<open>
  \<^verbatim>\<open>trailing_pragma_comment_length\<close> in the words of the specification: zero when the
  mode keeps pragma comments in the width, otherwise the text after the marker, the
  marker itself not counted.
\<close>

definition claimed_trailing_pragma_comment_length :: "line \<Rightarrow> nat" where
  "claimed_trailing_pragma_comment_length l =
     (if wrap_pragma_comments (mode l) then 0
      else
        sum_list
          (map (\<lambda>comment.
                  let parts = pragma_split (leaf_str comment)
                  in if length parts = 3 then length (parts ! 2) else 0)
             (comments_after l (last (leaves l)))))"

text \<open>The line \<^verbatim>\<open>x  # noqa: E501\<close>: the comment is filed under the only leaf.\<close>

definition noqa_comment :: leaf where
  "noqa_comment = Leaf 9 COMMENT ''# noqa: E501'' ''  '' 0 None 1 [] None None None"

definition line_with_noqa :: "mode \<Rightarrow> line" where
  "line_with_noqa m = (line_of m [tk 1 NAME ''x'' 0])\<lparr>comments := [(1, [noqa_comment])]\<rparr>"

text \<open>
  The quantities the specification names for \<^verbatim>\<open>is_line_short_enough(line, mode)\<close>: the
  rendering it measures (the line's string form without outer newlines; rendered for
  width calculation when tabs are in use), its display width (\<^verbatim>\<open>str_width\<close> in preview
  mode, \<^verbatim>\<open>len\<close> otherwise), and the effective length.
\<close>

definition display_width :: "ext \<Rightarrow> mode \<Rightarrow> string \<Rightarrow> nat" where
  "display_width x m s = (if preview_on m then strings_str_width x s else length s)"

definition effective_length :: "ext \<Rightarrow> line \<Rightarrow> mode \<Rightarrow> string \<Rightarrow> int" where
  "effective_length x l m s =
     (if wrap_pragma_comments m then int (display_width x m s)
      else int (display_width x m s) - int (trailing_pragma_comment_length l))"

definition rendered_line :: "ext \<Rightarrow> line \<Rightarrow> mode \<Rightarrow> error + string" where
  "rendered_line x l m =
     ebind (line_to_string x l)
       (\<lambda>plain.
          if use_tabs m
          then ebind (render_as_str_for_width_calculation x l) (\<lambda>s. Inr (strip_newlines s))
          else Inr plain)"

text \<open>A line of one name token.\<close>

definition one_name_line :: "string \<Rightarrow> line" where
  "one_name_line v = line_of sample_mode [tk 1 NAME v 0]"

text \<open>
  Closing brackets that know their opening bracket, and the lines \<^verbatim>\<open>a[x,\<close>, \<^verbatim>\<open>a[x, y,\<close>,
  \<^verbatim>\<open>from a import (b,\<close> and \<^verbatim>\<open>{a,\<close> to which they are about to be appended.
\<close>

definition closing_tk :: "nat \<Rightarrow> tok \<Rightarrow> string \<Rightarrow> nat \<Rightarrow> ln list \<Rightarrow> leaf" where
  "closing_tk i t v ob anc = Leaf i t v [] 0 (Some ob) 1 anc None None None"

definition subscript_one :: line where
  "subscript_one =
     line_of sample_mode
       [tk 1 NAME ''a'' 0, tk 2 LSQB ''['' 0, tk 3 NAME ''x'' 1, tk 4 COMMA '','' 1]"

definition subscript_two :: line where
  "subscript_two =
     line_of sample_mode
       [tk 1 NAME ''a'' 0, tk 2 LSQB ''['' 0, tk 3 NAME ''x'' 1, tk 4 COMMA '','' 1,
        tk 5 NAME ''y'' 1, tk 6 COMMA '','' 1]"

definition subscript_closing :: leaf where
  "subscript_closing = closing_tk 9 RSQB '']'' 2 [NodeN trailer []]"

definition import_one :: line where
  "import_one =
     line_of sample_mode
       [tk 1 NAME ''from'' 0, tk 2 NAME ''a'' 0, tk 3 NAME ''import'' 0, tk 4 LPAR ''('' 0,
        tk 5 NAME ''b'' 1, tk 6 COMMA '','' 1]"

definition set_display :: line where
  "set_display = line_of sample_mode [tk 1 LBRACE ''{'' 0, tk 2 NAME ''a'' 1, tk 3 COMMA '','' 1]"

text \<open>
  A right-hand split whose body carries the given delimiter table, and what it means
  for \<open>p\<close> to be the maximum priority among a tracker's delimiters.
\<close>

definition sample_rhs :: "(nat \<times> int) list \<Rightarrow> rhs_result" where
  "sample_rhs ds =
     \<lparr>head = one_name_line ''with'',
      body = (one_name_line ''a'')\<lparr>bracket_tracker := sample_tracker 0 ds\<rparr>,
      tail = one_name_line ''b'',
      rhs_opening_bracket = tk 90 LPAR [] 0,
      rhs_closing_bracket = tk 91 RPAR [] 0\<rparr>"

definition is_max_priority :: "bracket_tracker \<Rightarrow> int \<Rightarrow> bool" where
  "is_max_priority bt p =
     (p \<in> set (map snd (delimiters bt)) \<and> list_all (\<lambda>q. q \<le> p) (map snd (delimiters bt)))"

text \<open>
  The number of blank lines already emitted after the previous block, as
  \<^verbatim>\<open>maybe_empty_lines\<close> reads it; and sample lines and trackers: a line \<^verbatim>\<open>def f:\<close> whose
  first leaf has the given prefix, a fresh tracker, and a tracker that has just seen a
  top-level \<^verbatim>\<open>def\<close> whose block has the given after-count.
\<close>

definition previous_after :: "empty_line_tracker \<Rightarrow> int" where
  "previous_after t = (case previous_block t of None \<Rightarrow> 0 | Some pb \<Rightarrow> after (blocks t pb))"





text \<open>
  The line of the statement \<^verbatim>\<open>x = 1  # noqa: E501\<close> before its comment arrives: the
  right-hand side is wrapped in invisible parentheses, so the last leaf is an empty
  closing parenthesis whose parent holds three leaves.
\<close>

definition assignment_line :: line where
  "assignment_line =
     line_of sample_mode
       [tk 1 NAME ''x'' 0,
        Leaf 2 (OTHER_TOKEN 22) ''='' '' '' 0 None 1 [] None None None,
        Leaf 3 LPAR [] '' '' 0 None 0 [] None None None,
        tk 4 (OTHER_TOKEN 2) ''1'' 1,
        Leaf 5 RPAR [] [] 0 (Some 3) 0
          [NodeN (OTHER_SYM 0)
             [LeafN LPAR '' '' [], LeafN (OTHER_TOKEN 2) [] ''1'', LeafN RPAR [] []]]
          None None None]"

definition assignment_with_noqa :: line where
  "assignment_with_noqa = assignment_line\<lparr>comments := [(4, [noqa_comment])]\<rparr>"

section \<open>Properties of the logical line\<close>

lemma ebind_simps:
  "ebind (Inl e) f = Inl e"
  "ebind (Inr v) f = f v"
  by (simp_all add: ebind_def)


lemma eor_simps:
  "eor (Inl e) b = Inl e"
  "eor (Inr True) b = Inr True"
  "eor (Inr False) b = b"
  by (simp_all add: eor_def ebind_def)

lemma set_prefix_sel:
  "lid (set_prefix p l) = lid l"
  "ltype (set_prefix p l) = ltype l"
  "lvalue (set_prefix p l) = lvalue l"
  "prefix (set_prefix p l) = p"
  "bracket_depth (set_prefix p l) = bracket_depth l"
  "opening_bracket (set_prefix p l) = opening_bracket l"
  "ancestors (set_prefix p l) = ancestors l"
  by (simp_all add: set_prefix_def)

lemma set_type_sel:
  "lid (set_type t l) = lid l"
  "ltype (set_type t l) = t"
  "lvalue (set_type t l) = lvalue l"
  "prefix (set_type t l) = prefix l"
  "bracket_depth (set_type t l) = bracket_depth l"
  "opening_bracket (set_type t l) = opening_bracket l"
  "ancestors (set_type t l) = ancestors l"
  by (simp_all add: set_type_def)

lemma set_bracket_sel:
  "lid (set_bracket d ob l) = lid l"
  "ltype (set_bracket d ob l) = ltype l"
  "lvalue (set_bracket d ob l) = lvalue l"
  "prefix (set_bracket d ob l) = prefix l"
  "bracket_depth (set_bracket d ob l) = d"
  "opening_bracket (set_bracket d ob l) = ob"
  "ancestors (set_bracket d ob l) = ancestors l"
  by (simp_all add: set_bracket_def)

text \<open>
  C9. A token whose type is not a bracket type and whose text is empty or consists of
  whitespace only is dropped by \<^verbatim>\<open>append\<close>: the call returns normally and the line (its
  leaf sequence, comment map, bracket tracker and magic-trailing-comma reference) and
  the token are what they were.
\<close>

theorem append_without_value_is_noop:
  assumes "ltype f \<notin> BRACKETS" and "py_strip (lvalue f) = []"
  shows "append x l f preformatted track_bracket = Inr (l, f)"
  using assms by (simp add: append_def has_value_def)

theorem append_without_value_is_noop_witness:
  "ltype (tk 7 NAME ''  '' 0) \<notin> BRACKETS
   \<and> py_strip (lvalue (tk 7 NAME ''  '' 0)) = []
   \<and> append sample_ext (line_of sample_mode [tk 1 NAME ''x'' 0]) (tk 7 NAME ''  '' 0) False False
       = Inr (line_of sample_mode [tk 1 NAME ''x'' 0], tk 7 NAME ''  '' 0)"
proof -
  have a: "ltype (tk 7 NAME ''  '' 0) \<notin> BRACKETS"
    by (simp add: tk_def BRACKETS_def OPENING_BRACKETS_def CLOSING_BRACKETS_def)
  have b: "py_strip (lvalue (tk 7 NAME ''  '' 0)) = []"
    by (simp add: tk_def py_strip_def strip_by_def is_py_space_def)
  show ?thesis
    using a b
      append_without_value_is_noop
        [OF a b, of sample_ext "line_of sample_mode [tk 1 NAME ''x'' 0]" False False]
    by simp
qed

lemma append_comment_cases:
  "append_comment x l c = (False, l, set_prefix [] c) \<and> ltype c = STANDALONE_COMMENT
   \<or> append_comment x l c = (False, l, c) \<and> ltype c \<noteq> COMMENT
   \<or> append_comment x l c = (False, l, make_standalone c) \<and> ltype c = COMMENT
   \<or> (\<exists>target \<in> set (leaves l).
         append_comment x l c
           = (True, l\<lparr>comments := comments_extend (lid target) [c] (comments l)\<rparr>, c)
         \<and> ltype c = COMMENT)"
proof -
  have nth_mem: "leaves l \<noteq> [] \<Longrightarrow> leaves l ! (length (leaves l) - 2) \<in> set (leaves l)"
    by (rule nth_mem) (cases "leaves l", simp_all)
  have last_mem: "leaves l \<noteq> [] \<Longrightarrow> last (leaves l) \<in> set (leaves l)"
    by simp
  show ?thesis
    using nth_mem last_mem
    by (auto simp: append_comment_def Let_def)
qed

lemma make_standalone_type: "ltype (make_standalone c) = STANDALONE_COMMENT"
  by (simp add: make_standalone_def set_prefix_sel set_type_sel)

lemma append_store_inv:
  assumes "no_inline_comment_leaf l"
  shows "no_inline_comment_leaf (fst (append_store x l f))"
  using assms append_comment_cases [of x l f]
  by (auto simp: append_store_def no_inline_comment_leaf_def make_standalone_type set_prefix_sel)

lemma remove_trailing_comma_inv:
  assumes "no_inline_comment_leaf l" and "remove_trailing_comma l = Inr l'"
  shows "no_inline_comment_leaf l'"
proof -
  have "list_all (\<lambda>f. ltype f \<noteq> COMMENT) (butlast (leaves l))"
    using assms(1) by (auto simp: no_inline_comment_leaf_def list_all_iff dest: in_set_butlastD)
  then show ?thesis
    using assms(2)
    by (auto simp: remove_trailing_comma_def Let_def no_inline_comment_leaf_def
        split: if_splits)
qed

lemma append_track_inv:
  assumes "no_inline_comment_leaf l" and "append_track x l f = Inr (l', f')"
  shows "no_inline_comment_leaf l'"
proof -
  obtain bt' d ob where m: "bt_mark x (bracket_tracker l) f = (bt', d, ob)"
    by (cases "bt_mark x (bracket_tracker l) f") auto
  have base: "no_inline_comment_leaf (l\<lparr>bracket_tracker := bt'\<rparr>)"
    using assms(1) by (simp add: no_inline_comment_leaf_def)
  show ?thesis
    using assms(2) base remove_trailing_comma_inv [OF base]
    by (auto simp: append_track_def m Let_def ebind_def no_inline_comment_leaf_def
        split: if_splits sum.splits)
qed

lemma append_inv:
  assumes "no_inline_comment_leaf l" and "append x l f pre tb = Inr (l', f')"
  shows "no_inline_comment_leaf l'"
proof (cases "has_value f")
  case False
  then show ?thesis using assms by (simp add: append_def)
next
  case True
  define l1 where "l1 = (if COLON = ltype f \<and> is_class_paren_empty l
                   then l\<lparr>leaves := take (length (leaves l) - 2) (leaves l)\<rparr>
                   else l)"
  define f1 where "f1 = (if leaves l1 \<noteq> [] \<and> \<not> pre
                   then set_prefix (prefix f @ nodes_whitespace x f (is_complex_subscript x l1 f)) f
                   else f)"
  have inv1: "no_inline_comment_leaf l1"
    using assms(1)
    by (auto simp: l1_def no_inline_comment_leaf_def list_all_iff dest: in_set_takeD)
  have eq: "append x l f pre tb
      = ebind (if inside_brackets l1 \<or> \<not> pre \<or> tb then append_track x l1 f1 else Inr (l1, f1))
          (\<lambda>(l2, f2). Inr (append_store x l2 f2))"
    using True by (simp add: append_def l1_def f1_def Let_def)
  obtain l2 f2 where
    step: "(if inside_brackets l1 \<or> \<not> pre \<or> tb then append_track x l1 f1 else Inr (l1, f1))
             = Inr (l2, f2)"
    and res: "append_store x l2 f2 = (l', f')"
    using assms(2) unfolding eq
    by (cases "if inside_brackets l1 \<or> \<not> pre \<or> tb then append_track x l1 f1 else Inr (l1, f1)")
       (auto simp: ebind_def)
  have inv2: "no_inline_comment_leaf l2"
    using step inv1 append_track_inv [of l1 x f1 l2 f2]
    by (auto split: if_splits)
  show ?thesis
    using append_store_inv [OF inv2, of x f2] res by simp
qed


lemma append_track_comment:
  assumes "ltype f = COMMENT"
  shows "\<exists>bt' f'. append_track x l f = Inr (l\<lparr>bracket_tracker := bt'\<rparr>, f') \<and> ltype f' = COMMENT"
proof -
  obtain bt' d ob where m: "bt_mark x (bracket_tracker l) f = (bt', d, ob)"
    by (cases "bt_mark x (bracket_tracker l) f") auto
  have nm: "\<not> has_magic_trailing_comma x (l\<lparr>bracket_tracker := bt'\<rparr>) (set_bracket d ob f) b" for b
    using assms by (simp add: has_magic_trailing_comma_def set_bracket_sel CLOSING_BRACKETS_def)
  have "append_track x l f = Inr (l\<lparr>bracket_tracker := bt'\<rparr>, set_bracket d ob f)"
    by (simp add: append_track_def m Let_def nm)
  then show ?thesis
    using assms by (auto simp: set_bracket_sel)
qed

lemma append_store_comment:
  assumes "ltype f = COMMENT"
  shows "(leaves (fst (append_store x l f)) = leaves l @ [snd (append_store x l f)]
          \<and> ltype (snd (append_store x l f)) = STANDALONE_COMMENT
          \<and> prefix (snd (append_store x l f)) = []
          \<and> comments (fst (append_store x l f)) = comments l)
       \<or> (leaves (fst (append_store x l f)) = leaves l
          \<and> ltype (snd (append_store x l f)) = COMMENT
          \<and> (\<exists>target \<in> set (leaves l).
                comments (fst (append_store x l f))
                  = comments_extend (lid target) [snd (append_store x l f)] (comments l)))"
  using assms append_comment_cases [of x l f]
  by (auto simp: append_store_def make_standalone_def set_prefix_sel set_type_sel)

text \<open>
  C8. Every \<^verbatim>\<open>append\<close> and \<^verbatim>\<open>append_safe\<close> call that returns keeps the invariant that no
  leaf of the line has the inline-comment type. An inline comment that carries text is
  always accepted by \<^verbatim>\<open>append\<close>, and then either it has become a standalone comment
  (type changed, prefix cleared) that is the new last leaf while the comment map is
  unchanged, or the leaf sequence is unchanged and the comment is filed in the comment
  map under the identity of a leaf of the line. (A comment token without text is
  dropped by the first guard of \<^verbatim>\<open>append\<close>.)
\<close>

theorem leaf_sequence_never_holds_inline_comment:
  assumes "no_inline_comment_leaf l"
  shows "(\<forall>l' f'. append x l f pre tb = Inr (l', f') \<longrightarrow> no_inline_comment_leaf l')
       \<and> (\<forall>l' f'. append_safe x l f pre = Inr (l', f') \<longrightarrow> no_inline_comment_leaf l')
       \<and> (ltype f = COMMENT \<longrightarrow> has_value f \<longrightarrow>
            (\<exists>l' f'. append x l f pre tb = Inr (l', f')
               \<and> ((leaves l' = leaves l @ [f']
                    \<and> ltype f' = STANDALONE_COMMENT \<and> prefix f' = []
                    \<and> comments l' = comments l)
                   \<or> (leaves l' = leaves l
                       \<and> ltype f' = COMMENT
                       \<and> (\<exists>target \<in> set (leaves l).
                             comments l' = comments_extend (lid target) [f'] (comments l))))))"
proof (intro conjI allI impI)
  fix l' f'
  assume "append x l f pre tb = Inr (l', f')"
  then show "no_inline_comment_leaf l'"
    using assms append_inv by blast
next
  fix l' f'
  assume "append_safe x l f pre = Inr (l', f')"
  then have "append x l f pre False = Inr (l', f')"
    by (auto simp: append_safe_def split: if_splits)
  then show "no_inline_comment_leaf l'"
    using assms append_inv by blast
next
  assume c: "ltype f = COMMENT" and v: "has_value f"
  define f1 where "f1 = (if leaves l \<noteq> [] \<and> \<not> pre
                   then set_prefix (prefix f @ nodes_whitespace x f (is_complex_subscript x l f)) f
                   else f)"
  have c1: "ltype f1 = COMMENT"
    using c by (simp add: f1_def set_prefix_sel)
  have eq: "append x l f pre tb
      = ebind (if inside_brackets l \<or> \<not> pre \<or> tb then append_track x l f1 else Inr (l, f1))
          (\<lambda>(l2, f2). Inr (append_store x l2 f2))"
    using v c by (simp add: append_def f1_def Let_def)
  obtain l2 f2 where
    step: "(if inside_brackets l \<or> \<not> pre \<or> tb then append_track x l f1 else Inr (l, f1))
             = Inr (l2, f2)"
    and fr: "leaves l2 = leaves l" "comments l2 = comments l" and c2: "ltype f2 = COMMENT"
    using append_track_comment [OF c1, of x l] c1
    by (cases "inside_brackets l \<or> \<not> pre \<or> tb") auto
  obtain l3 f3 where st: "append_store x l2 f2 = (l3, f3)"
    by (cases "append_store x l2 f2") auto
  have res: "append x l f pre tb = Inr (l3, f3)"
    unfolding eq step by (simp add: ebind_def st)
  show "\<exists>l' f'. append x l f pre tb = Inr (l', f')
               \<and> ((leaves l' = leaves l @ [f']
                    \<and> ltype f' = STANDALONE_COMMENT \<and> prefix f' = []
                    \<and> comments l' = comments l)
                   \<or> (leaves l' = leaves l
                       \<and> ltype f' = COMMENT
                       \<and> (\<exists>target \<in> set (leaves l).
                             comments l' = comments_extend (lid target) [f'] (comments l))))"
    using append_store_comment [OF c2, of x l2] res fr unfolding st by auto
qed

theorem leaf_sequence_never_holds_inline_comment_witness:
  "no_inline_comment_leaf (line_of sample_mode [tk 1 NAME ''x'' 0])
   \<and> append sample_ext (line_of sample_mode [tk 1 NAME ''x'' 0]) sample_comment False False
       = Inr ((line_of sample_mode [tk 1 NAME ''x'' 0])\<lparr>comments := [(1, [sample_comment])]\<rparr>,
              sample_comment)
   \<and> no_inline_comment_leaf
       ((line_of sample_mode [tk 1 NAME ''x'' 0])\<lparr>comments := [(1, [sample_comment])]\<rparr>)
   \<and> append sample_ext (line_of sample_mode []) sample_comment False False
       = Inr ((line_of sample_mode [])\<lparr>leaves := [set_type STANDALONE_COMMENT sample_comment]\<rparr>,
              set_type STANDALONE_COMMENT sample_comment)
   \<and> no_inline_comment_leaf
       ((line_of sample_mode [])\<lparr>leaves := [set_type STANDALONE_COMMENT sample_comment]\<rparr>)"
proof -
  have h1: "no_inline_comment_leaf (line_of sample_mode [tk 1 NAME ''x'' 0])"
    by (simp add: no_inline_comment_leaf_def line_of_def tk_def)
  have h2: "no_inline_comment_leaf (line_of sample_mode [])"
    by (simp add: no_inline_comment_leaf_def line_of_def)
  have v: "has_value sample_comment"
    by (simp add: has_value_def sample_comment_def tk_def py_strip_def strip_by_def
        is_py_space_def)
  have e1: "append sample_ext (line_of sample_mode [tk 1 NAME ''x'' 0]) sample_comment False False
       = Inr ((line_of sample_mode [tk 1 NAME ''x'' 0])\<lparr>comments := [(1, [sample_comment])]\<rparr>,
              sample_comment)"
    using v
    by (simp add: append_def append_track_def append_store_def append_comment_def
        has_magic_trailing_comma_def CLOSING_BRACKETS_def sample_ext_def sample_mode_def
        line_of_def sample_tracker_def sample_comment_def tk_def set_prefix_def set_bracket_def
        is_class_paren_empty_def ebind_def Let_def)
  have e2: "append sample_ext (line_of sample_mode []) sample_comment False False
       = Inr ((line_of sample_mode [])\<lparr>leaves := [set_type STANDALONE_COMMENT sample_comment]\<rparr>,
              set_type STANDALONE_COMMENT sample_comment)"
    using v
    by (simp add: append_def append_track_def append_store_def append_comment_def
        has_magic_trailing_comma_def CLOSING_BRACKETS_def sample_ext_def sample_mode_def
        line_of_def sample_tracker_def sample_comment_def tk_def set_prefix_def set_bracket_def
        set_type_def make_standalone_def is_class_paren_empty_def ebind_def Let_def)
  show ?thesis
    using h1 h2 e1 e2
      leaf_sequence_never_holds_inline_comment
        [OF h1, of sample_ext sample_comment False False]
      leaf_sequence_never_holds_inline_comment
        [OF h2, of sample_ext sample_comment False False]
    by simp
qed

lemma comments_get_extend:
  "comments_get (comments_extend k new cm) k'
     = (if k' = k then comments_get cm k @ new else comments_get cm k')"
  by (induction cm) (auto simp: comments_get_def)

text \<open>
  C6. \<^verbatim>\<open>append_comment\<close> receives an inline comment that is not a type comment, and the
  line's last leaf is an invisible closing parenthesis (type \<^verbatim>\<open>RPAR\<close>, empty value) whose
  parent has at most three leaves (the two parentheses and the one token they wrap).
  With two or more leaves on the line the comment is accepted and filed under the leaf
  before the parenthesis: that leaf's comment list gains the comment at its end, every
  other entry of the comment map reads as before, and the leaves are unchanged. With
  fewer than two leaves the call returns \<^verbatim>\<open>False\<close>, the line is unchanged, and the
  comment has become a standalone comment with an empty prefix.
\<close>

theorem comment_on_invisible_paren_is_redirected:
  assumes "ltype comment = COMMENT"
    and "leaves l \<noteq> []"
    and "ltype (last (leaves l)) = RPAR"
    and "lvalue (last (leaves l)) = []"
    and "parent (last (leaves l)) = Some p"
    and "ln_leaf_count p \<le> 3"
    and "\<not> nodes_is_type_comment x comment []"
  shows "(2 \<le> length (leaves l) \<longrightarrow>
           (\<exists>l'. append_comment x l comment = (True, l', comment)
              \<and> leaves l' = leaves l
              \<and> comments_after l' (leaves l ! (length (leaves l) - 2))
                  = comments_after l (leaves l ! (length (leaves l) - 2)) @ [comment]
              \<and> (\<forall>k. k \<noteq> lid (leaves l ! (length (leaves l) - 2)) \<longrightarrow>
                     comments_get (comments l') k = comments_get (comments l) k)))
       \<and> (length (leaves l) < 2 \<longrightarrow>
            append_comment x l comment = (False, l, make_standalone comment)
            \<and> ltype (make_standalone comment) = STANDALONE_COMMENT
            \<and> prefix (make_standalone comment) = [])"
  using assms
  by (simp add: append_comment_def Let_def comments_after_def comments_get_extend
      make_standalone_def set_prefix_sel set_type_sel)

theorem comment_on_invisible_paren_is_redirected_witness:
  "append_comment sample_ext (line_of sample_mode [tk 1 NAME ''x'' 0, invisible_rpar 2])
       sample_comment
     = (True,
        (line_of sample_mode [tk 1 NAME ''x'' 0, invisible_rpar 2])
          \<lparr>comments := [(1, [sample_comment])]\<rparr>,
        sample_comment)
   \<and> append_comment sample_ext (line_of sample_mode [invisible_rpar 2]) sample_comment
     = (False, line_of sample_mode [invisible_rpar 2], make_standalone sample_comment)"
proof -
  let ?p = "NodeN (OTHER_SYM 0) [LeafN LPAR [] [], LeafN NAME [] ''x'', LeafN RPAR [] []]"
  let ?l2 = "line_of sample_mode [tk 1 NAME ''x'' 0, invisible_rpar 2]"
  let ?l1 = "line_of sample_mode [invisible_rpar 2]"
  have c: "ltype sample_comment = COMMENT"
    by (simp add: sample_comment_def tk_def)
  have n: "\<not> nodes_is_type_comment sample_ext sample_comment []"
    by (simp add: sample_ext_def sample_comment_def tk_def startswith_def)
  have a2: "leaves ?l2 \<noteq> []" "ltype (last (leaves ?l2)) = RPAR" "lvalue (last (leaves ?l2)) = []"
    "parent (last (leaves ?l2)) = Some ?p" "ln_leaf_count ?p \<le> 3"
    by (simp_all add: line_of_def invisible_rpar_def parent_def)
  have a1: "leaves ?l1 \<noteq> []" "ltype (last (leaves ?l1)) = RPAR" "lvalue (last (leaves ?l1)) = []"
    "parent (last (leaves ?l1)) = Some ?p"
    by (simp_all add: line_of_def invisible_rpar_def parent_def)
  have r2: "\<exists>l'. append_comment sample_ext ?l2 sample_comment = (True, l', sample_comment)"
    using comment_on_invisible_paren_is_redirected [OF c a2 n]
    by (auto simp: line_of_def)
  have r1: "append_comment sample_ext ?l1 sample_comment
              = (False, ?l1, make_standalone sample_comment)"
    using comment_on_invisible_paren_is_redirected [OF c a1 a2(5) n]
    by (simp add: line_of_def)
  have e2: "snd (append_comment sample_ext ?l2 sample_comment)
              = (?l2\<lparr>comments := [(1, [sample_comment])]\<rparr>, sample_comment)"
    using c n
    by (simp add: append_comment_def Let_def line_of_def invisible_rpar_def parent_def tk_def)
  show ?thesis
    using r1 r2 e2 by auto
qed

lemma remove_trailing_comma_error:
  "remove_trailing_comma l = Inl e \<Longrightarrow> e = IndexError"
  by (auto simp: remove_trailing_comma_def Let_def split: if_splits)

lemma append_track_error:
  "append_track x l f = Inl e \<Longrightarrow> e = IndexError"
  by (cases "bt_mark x (bracket_tracker l) f")
     (auto simp: append_track_def Let_def ebind_def
       split: if_splits sum.splits dest: remove_trailing_comma_error)

lemma append_error:
  "append x l f pre tb = Inl e \<Longrightarrow> e = IndexError"
  by (auto simp: append_def Let_def ebind_def
       split: if_splits sum.splits dest: append_track_error)

text \<open>
  C4 (as amended). \<^verbatim>\<open>append_safe\<close> raises \<^verbatim>\<open>ValueError\<close> exactly when the line's bracket
  depth is zero and either the line is a pure standalone comment (whatever the token
  is) or the token is a standalone comment and the line already has leaves. In every
  other case it is \<^verbatim>\<open>append\<close> with the same \<^verbatim>\<open>preformatted\<close> flag and bracket tracking
  not forced; \<^verbatim>\<open>append\<close> itself never raises \<^verbatim>\<open>ValueError\<close>.
\<close>

theorem append_safe_raises_at_depth_zero:
  "((\<exists>msg. append_safe x l f pre = Inl (ValueError msg))
      \<longleftrightarrow> (bt_depth (bracket_tracker l) = 0
           \<and> (is_comment l \<or> (leaves l \<noteq> [] \<and> ltype f = STANDALONE_COMMENT))))
   \<and> (\<not> (bt_depth (bracket_tracker l) = 0
           \<and> (is_comment l \<or> (leaves l \<noteq> [] \<and> ltype f = STANDALONE_COMMENT)))
        \<longrightarrow> append_safe x l f pre = append x l f pre False)"
proof -
  have "append x l f pre False \<noteq> Inl (ValueError msg)" for msg
    using append_error [of x l f pre False "ValueError msg"] by auto
  then show ?thesis
    by (auto simp: append_safe_def)
qed

theorem append_safe_raises_at_depth_zero_witness:
  "append_safe sample_ext (line_at_depth 0 [tk 1 NAME ''x'' 0]) sample_standalone False
     = Inl (ValueError ''cannot append standalone comments to a populated line'')
   \<and> append_safe sample_ext (line_at_depth 0 [sample_standalone]) (tk 1 NAME ''x'' 0) False
     = Inl (ValueError ''cannot append to standalone comments'')
   \<and> append_safe sample_ext (line_at_depth 1 [tk 1 NAME ''x'' 0]) sample_standalone False
     = append sample_ext (line_at_depth 1 [tk 1 NAME ''x'' 0]) sample_standalone False False"
proof -
  have a: "\<not> (bt_depth (bracket_tracker (line_at_depth 1 [tk 1 NAME ''x'' 0])) = 0
           \<and> (is_comment (line_at_depth 1 [tk 1 NAME ''x'' 0])
               \<or> (leaves (line_at_depth 1 [tk 1 NAME ''x'' 0]) \<noteq> []
                   \<and> ltype sample_standalone = STANDALONE_COMMENT)))"
    by (simp add: line_at_depth_def sample_tracker_def)
  have b: "append_safe sample_ext (line_at_depth 0 [tk 1 NAME ''x'' 0]) sample_standalone False
     = Inl (ValueError ''cannot append standalone comments to a populated line'')"
    by (simp add: append_safe_def line_at_depth_def sample_tracker_def line_of_def
        is_comment_def tk_def sample_standalone_def)
  have c: "append_safe sample_ext (line_at_depth 0 [sample_standalone]) (tk 1 NAME ''x'' 0) False
     = Inl (ValueError ''cannot append to standalone comments'')"
    by (simp add: append_safe_def line_at_depth_def sample_tracker_def line_of_def
        is_comment_def tk_def sample_standalone_def)
  show ?thesis
    using a b c
      append_safe_raises_at_depth_zero
        [of sample_ext "line_at_depth 1 [tk 1 NAME ''x'' 0]" sample_standalone False]
    by blast
qed

text \<open>
  C4 as stated fails in both directions. At bracket depth zero a standalone comment
  appended to a populated line raises, though the stated condition asks for non-zero
  depth; at depth one the stated condition holds and the call returns normally.
\<close>

theorem append_safe_claimed_condition_counterexample:
  "append_safe sample_ext (line_at_depth 0 [tk 1 NAME ''x'' 0]) sample_standalone False
     = Inl (ValueError ''cannot append standalone comments to a populated line'')
   \<and> \<not> claimed_append_safe_raises (line_at_depth 0 [tk 1 NAME ''x'' 0]) sample_standalone
   \<and> append_safe sample_ext (line_at_depth 1 [tk 1 NAME ''x'' 0]) sample_standalone False
     = Inr ((line_at_depth 1 [tk 1 NAME ''x'' 0])
              \<lparr>leaves := [tk 1 NAME ''x'' 0, sample_standalone]\<rparr>,
            sample_standalone)
   \<and> claimed_append_safe_raises (line_at_depth 1 [tk 1 NAME ''x'' 0]) sample_standalone"
proof -
  have v: "has_value sample_standalone"
    by (simp add: has_value_def sample_standalone_def tk_def py_strip_def strip_by_def
        is_py_space_def)
  have "append_safe sample_ext (line_at_depth 1 [tk 1 NAME ''x'' 0]) sample_standalone False
     = Inr ((line_at_depth 1 [tk 1 NAME ''x'' 0])
              \<lparr>leaves := [tk 1 NAME ''x'' 0, sample_standalone]\<rparr>,
            sample_standalone)"
    using v
    by (simp add: append_safe_def append_def append_track_def append_store_def
        append_comment_def has_magic_trailing_comma_def CLOSING_BRACKETS_def sample_ext_def
        sample_mode_def line_at_depth_def line_of_def sample_tracker_def sample_standalone_def
        tk_def set_prefix_def set_bracket_def is_class_paren_empty_def is_comment_def
        ebind_def Let_def)
  then show ?thesis
    by (simp add: append_safe_def claimed_append_safe_raises_def line_at_depth_def
        line_of_def sample_tracker_def is_comment_def line_bool_def tk_def
        sample_standalone_def)
qed

section \<open>Properties of the pragma-comment length\<close>

lemma startswith_length: "startswith s p \<Longrightarrow> length p \<le> length s"
  by (metis startswith_def length_take min.cobounded1 min.commute)

lemma pragma_match_bound:
  assumes "pragma_match s = Some n"
  shows "n \<le> length s"
proof -
  define k where "k = length (takeWhile (\<lambda>c. c = CHR '' '') s)"
  have k: "k \<le> length s"
    by (simp add: k_def length_takeWhile_le)
  have len: "length (drop k s) = length s - k"
    by simp
  consider "startswith (drop k s) ''# pylint:''" "n = k + 9"
    | "startswith (drop k s) ''# pytype:''" "n = k + 9"
    | "startswith (drop k s) ''# noqa:''" "n = k + 7"
    | "startswith (drop k s) ''# type:''" "n = k + 7"
    using assms by (auto simp: pragma_match_def Let_def k_def split: if_splits)
  then show ?thesis
    using k len by cases (drule startswith_length, simp)+
qed

lemma pragma_search_bound:
  "pragma_search s = Some (i, n) \<Longrightarrow> i + n \<le> length s"
proof (induction s arbitrary: i n)
  case Nil
  then show ?case by (auto simp: pragma_match_def startswith_def)
next
  case (Cons c cs)
  show ?case
  proof (cases "pragma_match (c # cs)")
    case (Some m)
    then show ?thesis using Cons.prems pragma_match_bound [OF Some] by simp
  next
    case None
    then obtain j where "pragma_search cs = Some (j, n)" and "i = Suc j"
      using Cons.prems by (auto split: option.splits)
    then show ?thesis using Cons.IH by fastforce
  qed
qed

lemma pragma_search_leftmost:
  "pragma_search s = Some (i, n) \<Longrightarrow>
     pragma_match (drop i s) = Some n \<and> (\<forall>j < i. pragma_match (drop j s) = None)"
proof (induction s arbitrary: i n)
  case Nil
  then show ?case by auto
next
  case (Cons c cs)
  show ?case
  proof (cases "pragma_match (c # cs)")
    case (Some m)
    then show ?thesis using Cons.prems by simp
  next
    case None
    then obtain j where j: "pragma_search cs = Some (j, n)" and i: "i = Suc j"
      using Cons.prems by (auto split: option.splits)
    have "pragma_match (drop k (c # cs)) = None" if "k < i" for k
      using that None Cons.IH [OF j] i by (cases k) auto
    then show ?thesis using Cons.IH [OF j] i by simp
  qed
qed

lemma pragma_parts_length:
  "(let parts = pragma_split s
    in if length parts = 3 then len + (length (parts ! 1) + length (parts ! 2)) else len)
   = len + (case pragma_search s of None \<Rightarrow> 0 | Some (i, n) \<Rightarrow> length s - i)"
proof (cases "pragma_search s")
  case None
  then show ?thesis by (simp add: pragma_split_def)
next
  case (Some a)
  obtain i n where a: "a = (i, n)" by (cases a)
  have "i + n \<le> length s"
    using Some a pragma_search_bound by simp
  then show ?thesis
    using Some a by (simp add: pragma_split_def Let_def)
qed

lemma fold_add_sum_list:
  "fold (\<lambda>c (len :: nat). len + h c) cs a = a + sum_list (map h cs)"
  by (induction cs arbitrary: a) (simp_all add: add.assoc)

lemma fold_pragma_parts:
  "fold (\<lambda>comment len.
           let parts = pragma_split (leaf_str comment)
           in if length parts = 3 then len + (length (parts ! 1) + length (parts ! 2)) else len)
     cs a
   = a + sum_list
           (map (\<lambda>c. case pragma_search (leaf_str c) of
                        None \<Rightarrow> 0
                      | Some (i, n) \<Rightarrow> length (leaf_str c) - i)
              cs)"
  unfolding pragma_parts_length by (rule fold_add_sum_list)

text \<open>
  C5 (as amended). \<^verbatim>\<open>trailing_pragma_comment_length\<close> is zero for a line without
  leaves. Otherwise it is the sum, over the comments filed under the line's last leaf,
  of the length of the comment's text (prefix and value) from the start of the leftmost
  pragma marker to the end, the marker and the spaces before it included; a comment
  without a marker adds nothing. The result does not depend on the line's mode: it is
  \<^verbatim>\<open>is_line_short_enough\<close> that leaves it out when pragma comments count for the width.
\<close>

theorem trailing_pragma_comment_length_counts_from_marker:
  "trailing_pragma_comment_length l
     = (if leaves l = [] then 0
        else sum_list
               (map (\<lambda>c. case pragma_search (leaf_str c) of
                            None \<Rightarrow> 0
                          | Some (i, n) \<Rightarrow> length (leaf_str c) - i)
                  (comments_after l (last (leaves l)))))
   \<and> trailing_pragma_comment_length (l\<lparr>mode := m\<rparr>) = trailing_pragma_comment_length l"
  by (simp add: trailing_pragma_comment_length_def fold_pragma_parts comments_after_def)

lemma noqa_search: "pragma_search ''  # noqa: E501'' = Some (0, 9)"
  by (simp add: pragma_match_def startswith_def)

lemma noqa_split: "pragma_split (leaf_str noqa_comment) = [[], ''  # noqa:'', '' E501'']"
proof -
  have "leaf_str noqa_comment = ''  # noqa: E501''"
    by (simp add: leaf_str_def noqa_comment_def)
  then show ?thesis
    unfolding pragma_split_def by (simp only: noqa_search) simp
qed

lemma noqa_length: "trailing_pragma_comment_length (line_with_noqa m) = 14"
proof -
  have "comments_get (comments (line_with_noqa m)) (lid (last (leaves (line_with_noqa m))))
          = [noqa_comment]"
    by (simp add: line_with_noqa_def line_of_def comments_get_def tk_def)
  moreover have "leaves (line_with_noqa m) \<noteq> []"
    by (simp add: line_with_noqa_def line_of_def)
  ultimately show ?thesis
    by (simp add: trailing_pragma_comment_length_def noqa_split)
qed

theorem trailing_pragma_comment_length_counts_from_marker_witness:
  "trailing_pragma_comment_length (line_with_noqa sample_mode) = 14
   \<and> trailing_pragma_comment_length
       ((line_with_noqa sample_mode)\<lparr>mode := sample_mode\<lparr>wrap_pragma_comments := True\<rparr>\<rparr>)
     = 14"
proof -
  have v: "trailing_pragma_comment_length (line_with_noqa sample_mode) = 14"
    by (rule noqa_length)
  have w: "trailing_pragma_comment_length
       ((line_with_noqa sample_mode)\<lparr>mode := sample_mode\<lparr>wrap_pragma_comments := True\<rparr>\<rparr>)
     = trailing_pragma_comment_length (line_with_noqa sample_mode)"
    using trailing_pragma_comment_length_counts_from_marker
      [of "line_with_noqa sample_mode" "sample_mode\<lparr>wrap_pragma_comments := True\<rparr>"]
    by (rule conjunct2)
  show ?thesis
    unfolding w using v by simp
qed

text \<open>
  C5 as stated fails on the line \<^verbatim>\<open>x  # noqa: E501\<close>: the result is 14, the whole
  comment with its two leading spaces, whichever way \<^verbatim>\<open>wrap_pragma_comments\<close> is set,
  where the stated property gives 0 for one setting and 5 (the text after the marker)
  for the other.
\<close>

theorem trailing_pragma_comment_length_counterexample:
  "trailing_pragma_comment_length
     (line_with_noqa (sample_mode\<lparr>wrap_pragma_comments := True\<rparr>)) = 14
   \<and> claimed_trailing_pragma_comment_length
       (line_with_noqa (sample_mode\<lparr>wrap_pragma_comments := True\<rparr>)) = 0
   \<and> trailing_pragma_comment_length (line_with_noqa sample_mode) = 14
   \<and> claimed_trailing_pragma_comment_length (line_with_noqa sample_mode) = 5"
proof -
  have "comments_after (line_with_noqa sample_mode) (last (leaves (line_with_noqa sample_mode)))
          = [noqa_comment]"
    by (simp add: comments_after_def line_with_noqa_def line_of_def comments_get_def tk_def)
  then have "claimed_trailing_pragma_comment_length (line_with_noqa sample_mode) = 5"
    by (simp add: claimed_trailing_pragma_comment_length_def noqa_split)
       (simp add: line_with_noqa_def line_of_def sample_mode_def)
  moreover have "claimed_trailing_pragma_comment_length
       (line_with_noqa (sample_mode\<lparr>wrap_pragma_comments := True\<rparr>)) = 0"
    by (simp add: claimed_trailing_pragma_comment_length_def line_with_noqa_def line_of_def)
  ultimately show ?thesis
    by (simp add: noqa_length)
qed

section \<open>Properties of the line-fit judge\<close>

lemma rendered_line_total:
  assumes "leaves l \<noteq> [] \<or> comments l = []"
  shows "\<exists>s. rendered_line x l m = Inr s"
  using assms
  by (cases "leaves l")
     (auto simp: rendered_line_def line_to_string_def render_as_str_for_width_calculation_def
       str_inner_def line_bool_def ebind_def)

lemma is_line_short_enough_plain:
  assumes "\<not> has_preview m multiline_string_handling"
    and "rendered_line x l m = Inr s"
  shows "is_line_short_enough x l m []
           = Inr (effective_length x l m s \<le> line_length m
                  \<and> newline \<notin> set s
                  \<and> \<not> contains_standalone_comments l sys_maxsize)"
proof (cases "line_to_string x l")
  case (Inl e)
  then show ?thesis using assms(2) by (simp add: rendered_line_def ebind_def)
next
  case (Inr plain)
  show ?thesis
  proof (cases "use_tabs m")
    case True
    then obtain w where w: "render_as_str_for_width_calculation x l = Inr w"
      and s: "s = strip_newlines w"
      using assms(2) Inr
      by (cases "render_as_str_for_width_calculation x l")
         (auto simp: rendered_line_def ebind_def)
    show ?thesis
      using assms(1) True Inr w s
      by (simp add: is_line_short_enough_def ebind_def Let_def effective_length_def
          display_width_def)
  next
    case False
    then have "s = plain"
      using assms(2) Inr by (simp add: rendered_line_def ebind_def)
    then show ?thesis
      using assms(1) False Inr
      by (simp add: is_line_short_enough_def ebind_def Let_def effective_length_def
          display_width_def)
  qed
qed

lemma strip_newlines_eval:
  "strip_newlines (''hello'' @ [newline]) = ''hello''"
  "strip_newlines (''hello!'' @ [newline]) = ''hello!''"
  "strip_newlines (''x  # noqa: E501'' @ [newline]) = ''x  # noqa: E501''"
  by (simp_all add: strip_newlines_def strip_by_def newline_def)

lemma rendered_samples:
  "rendered_line sample_ext (one_name_line ''hello'') m = Inr ''hello''"
  "rendered_line sample_ext (one_name_line ''hello!'') m = Inr ''hello!''"
  "rendered_line sample_ext (line_with_noqa sample_mode) m = Inr ''x  # noqa: E501''"
  using strip_newlines_eval
  by (simp_all add: rendered_line_def line_to_string_def
      render_as_str_for_width_calculation_def str_inner_def line_bool_def ebind_def
      one_name_line_def line_of_def line_with_noqa_def tk_def noqa_comment_def leaf_str_def
      sample_ext_def)

lemma one_name_line_facts:
  "trailing_pragma_comment_length (one_name_line v) = 0"
  "\<not> contains_standalone_comments (one_name_line v) sys_maxsize"
  by (simp_all add: trailing_pragma_comment_length_def contains_standalone_comments_def
      one_name_line_def line_of_def comments_get_def tk_def)

lemma is_line_short_enough_samples:
  "is_line_short_enough sample_ext (one_name_line ''hello'') sample_mode [] = Inr True"
  "is_line_short_enough sample_ext (one_name_line ''hello!'') sample_mode [] = Inr False"
  "is_line_short_enough sample_ext (line_with_noqa sample_mode)
     (sample_mode\<lparr>line_length := 1\<rparr>) [] = Inr True"
proof -
  let ?m1 = "sample_mode\<lparr>line_length := 1\<rparr>"
  have p: "\<not> has_preview sample_mode multiline_string_handling"
    "\<not> has_preview ?m1 multiline_string_handling"
    by (simp_all add: sample_mode_def)
  have w: "display_width sample_ext sample_mode s = length s"
    "display_width sample_ext ?m1 s = length s" for s
    by (simp_all add: display_width_def sample_mode_def)
  have mf: "line_length sample_mode = 5" "\<not> wrap_pragma_comments sample_mode"
    "line_length ?m1 = 1" "\<not> wrap_pragma_comments ?m1"
    by (simp_all add: sample_mode_def)
  have c: "\<not> contains_standalone_comments (line_with_noqa sample_mode) sys_maxsize"
    by (simp add: contains_standalone_comments_def line_of_def line_with_noqa_def tk_def)
  show "is_line_short_enough sample_ext (one_name_line ''hello'') sample_mode [] = Inr True"
    using is_line_short_enough_plain [OF p(1) rendered_samples(1) [of sample_mode]]
    by (simp add: w mf one_name_line_facts effective_length_def newline_def)
  show "is_line_short_enough sample_ext (one_name_line ''hello!'') sample_mode [] = Inr False"
    using is_line_short_enough_plain [OF p(1) rendered_samples(2) [of sample_mode]]
    by (simp add: w mf one_name_line_facts effective_length_def newline_def)
  show "is_line_short_enough sample_ext (line_with_noqa sample_mode) ?m1 [] = Inr True"
    using is_line_short_enough_plain [OF p(2) rendered_samples(3) [of ?m1]]
    by (simp add: w mf c noqa_length effective_length_def newline_def)
qed

lemma assignment_with_noqa_facts:
  "rendered_line sample_ext assignment_with_noqa m = Inr ''x = 1  # noqa: E501''"
  "trailing_pragma_comment_length assignment_with_noqa = 0"
  "\<not> contains_standalone_comments assignment_with_noqa sys_maxsize"
proof -
  have "strip_newlines (''x = 1  # noqa: E501'' @ [newline]) = ''x = 1  # noqa: E501''"
    by (simp add: strip_newlines_def strip_by_def newline_def)
  then show "rendered_line sample_ext assignment_with_noqa m = Inr ''x = 1  # noqa: E501''"
    by (simp add: rendered_line_def line_to_string_def
        render_as_str_for_width_calculation_def str_inner_def line_bool_def ebind_def
        assignment_with_noqa_def assignment_line_def line_of_def tk_def noqa_comment_def
        leaf_str_def sample_ext_def)
  show "trailing_pragma_comment_length assignment_with_noqa = 0"
    by (simp add: trailing_pragma_comment_length_def assignment_with_noqa_def
        assignment_line_def line_of_def comments_get_def tk_def)
  show "\<not> contains_standalone_comments assignment_with_noqa sys_maxsize"
    by (simp add: contains_standalone_comments_def assignment_with_noqa_def
        assignment_line_def line_of_def tk_def)
qed

text \<open>
  C1. With multi-line-string-aware layout disabled, \<^verbatim>\<open>is_line_short_enough(line, mode)\<close>
  returns true if and only if the effective length is at most the budget, the rendering
  has no newline and the line has no standalone comment (\<open>is_line_short_enough_plain\<close>),
  and a line ending in \<^verbatim>\<open># noqa: E501\<close> should fit when its text exceeds the budget by
  the pragma's length. The code does not do this on \<^verbatim>\<open>x = 1  # noqa: E501\<close>. Appending
  the comment files it under \<^verbatim>\<open>1\<close>, the leaf before the invisible closing parenthesis;
  the line renders as 19 characters, the budget 5 plus the 14 of the pragma;
  \<^verbatim>\<open>trailing_pragma_comment_length\<close> reads only the last leaf's comments and returns 0;
  and \<^verbatim>\<open>is_line_short_enough\<close> returns false. With the same comment filed under the last
  leaf (\<^verbatim>\<open>x  # noqa: E501\<close>, budget 1) it returns true.
\<close>

theorem is_line_short_enough_misses_redirected_pragma:
  "append sample_ext assignment_line noqa_comment False False
     = Inr (assignment_with_noqa, noqa_comment)
   \<and> rendered_line sample_ext assignment_with_noqa sample_mode = Inr ''x = 1  # noqa: E501''
   \<and> int (length ''x = 1  # noqa: E501'')
       = line_length sample_mode + int (length (leaf_str noqa_comment))
   \<and> \<not> wrap_pragma_comments sample_mode
   \<and> \<not> has_preview sample_mode multiline_string_handling
   \<and> trailing_pragma_comment_length assignment_with_noqa = 0
   \<and> is_line_short_enough sample_ext assignment_with_noqa sample_mode [] = Inr False
   \<and> is_line_short_enough sample_ext (line_with_noqa sample_mode)
         (sample_mode\<lparr>line_length := 1\<rparr>) []
       = Inr True"
proof -
  have v: "has_value noqa_comment"
    by (simp add: has_value_def noqa_comment_def py_strip_def strip_by_def is_py_space_def)
  have a: "append sample_ext assignment_line noqa_comment False False
             = Inr (assignment_with_noqa, noqa_comment)"
    using v
    by (simp add: append_def append_track_def append_store_def append_comment_def
        has_magic_trailing_comma_def CLOSING_BRACKETS_def sample_ext_def sample_mode_def
        assignment_with_noqa_def assignment_line_def line_of_def sample_tracker_def
        noqa_comment_def tk_def set_prefix_def set_bracket_def parent_def startswith_def
        is_class_paren_empty_def ebind_def Let_def)
  have p: "\<not> has_preview sample_mode multiline_string_handling"
    and m: "line_length sample_mode = 5" "\<not> wrap_pragma_comments sample_mode"
    and w: "display_width sample_ext sample_mode s = length s" for s
    by (simp_all add: sample_mode_def display_width_def)
  have f: "is_line_short_enough sample_ext assignment_with_noqa sample_mode [] = Inr False"
    using is_line_short_enough_plain [OF p assignment_with_noqa_facts(1) [of sample_mode]]
    by (simp add: w m assignment_with_noqa_facts effective_length_def)
  have n: "int (length ''x = 1  # noqa: E501'')
             = line_length sample_mode + int (length (leaf_str noqa_comment))"
    by (simp add: m leaf_str_def noqa_comment_def)
  show ?thesis
    using a f n p m assignment_with_noqa_facts is_line_short_enough_samples(3) by simp
qed

theorem is_line_short_enough_misses_redirected_pragma_witness:
  "is_line_short_enough sample_ext assignment_with_noqa sample_mode [] = Inr False
   \<and> is_line_short_enough sample_ext (line_with_noqa sample_mode)
         (sample_mode\<lparr>line_length := 1\<rparr>) []
       = Inr True"
  using is_line_short_enough_misses_redirected_pragma by simp

section \<open>Properties of magic trailing commas\<close>

text \<open>
  C2. \<^verbatim>\<open>has_magic_trailing_comma(closing)\<close> is false unless \<^verbatim>\<open>closing\<close> is a closing
  bracket and the line's last leaf is a comma. When the last leaf is a comma: it is
  true for a closing curly brace; for a closing square bracket it is false when the
  bracket's parent is an indexing trailer and the brackets hold one sequence (a
  one-element subscript such as \<^verbatim>\<open>[x,]\<close>), and, removability not being asked for, true
  when the brackets hold more than one sequence (\<^verbatim>\<open>[x, y,]\<close>); for any other closing
  bracket on an import line it is true, whatever the brackets hold.
\<close>

theorem has_magic_trailing_comma_by_bracket:
  "(\<not> (ltype closing \<in> CLOSING_BRACKETS \<and> leaves l \<noteq> [] \<and> ltype (last (leaves l)) = COMMA)
      \<longrightarrow> \<not> has_magic_trailing_comma x l closing ensure_removable)
   \<and> (leaves l \<noteq> [] \<and> ltype (last (leaves l)) = COMMA \<longrightarrow>
        (ltype closing = RBRACE \<longrightarrow> has_magic_trailing_comma x l closing ensure_removable)
        \<and> (ltype closing = RSQB
             \<and> parent closing = Some p \<and> ln_type p = Inr trailer
             \<and> opening_bracket closing = Some ob
             \<and> nodes_is_one_sequence_between x ob closing (leaves l) (LSQB, RSQB)
             \<longrightarrow> \<not> has_magic_trailing_comma x l closing ensure_removable)
        \<and> (ltype closing = RSQB
             \<and> opening_bracket closing = Some ob
             \<and> \<not> nodes_is_one_sequence_between x ob closing (leaves l) (LSQB, RSQB)
             \<longrightarrow> has_magic_trailing_comma x l closing False)
        \<and> (ltype closing \<in> CLOSING_BRACKETS
             \<and> ltype closing \<noteq> RBRACE \<and> ltype closing \<noteq> RSQB
             \<and> is_import x l = Inr True
             \<longrightarrow> has_magic_trailing_comma x l closing ensure_removable))"
  by (auto simp: has_magic_trailing_comma_def CLOSING_BRACKETS_def split: option.splits)

lemma sample_one_sequence:
  "nodes_is_one_sequence_between sample_ext 2 subscript_closing (leaves subscript_one)
     (LSQB, RSQB)"
  "\<not> nodes_is_one_sequence_between sample_ext 2 subscript_closing (leaves subscript_two)
       (LSQB, RSQB)"
  "nodes_is_one_sequence_between sample_ext 4 (closing_tk 9 RPAR '')'' 4 [])
     (leaves import_one) (LPAR, RPAR)"
  by (simp_all add: sample_ext_def is_one_sequence_between_def subscript_one_def
      subscript_two_def import_one_def subscript_closing_def closing_tk_def line_of_def tk_def)

theorem has_magic_trailing_comma_by_bracket_witness:
  "has_magic_trailing_comma sample_ext set_display (closing_tk 9 RBRACE ''}'' 1 []) False
   \<and> \<not> has_magic_trailing_comma sample_ext subscript_one subscript_closing False
   \<and> has_magic_trailing_comma sample_ext subscript_two subscript_closing False
   \<and> has_magic_trailing_comma sample_ext import_one (closing_tk 9 RPAR '')'' 4 []) False
   \<and> nodes_is_one_sequence_between sample_ext 4 (closing_tk 9 RPAR '')'' 4 [])
         (leaves import_one) (LPAR, RPAR)
   \<and> \<not> has_magic_trailing_comma sample_ext (one_name_line ''a'')
         (closing_tk 9 RBRACE ''}'' 1 []) False"
proof -
  have a: "leaves set_display \<noteq> [] \<and> ltype (last (leaves set_display)) = COMMA"
    "leaves subscript_one \<noteq> [] \<and> ltype (last (leaves subscript_one)) = COMMA"
    "leaves subscript_two \<noteq> [] \<and> ltype (last (leaves subscript_two)) = COMMA"
    "leaves import_one \<noteq> [] \<and> ltype (last (leaves import_one)) = COMMA"
    "ltype (last (leaves (one_name_line ''a''))) \<noteq> COMMA"
    by (simp_all add: set_display_def subscript_one_def subscript_two_def import_one_def
        one_name_line_def line_of_def tk_def)
  have b: "ltype (closing_tk 9 RBRACE ''}'' 1 []) = RBRACE"
    "ltype subscript_closing = RSQB"
    "parent subscript_closing = Some (NodeN trailer [])"
    "opening_bracket subscript_closing = Some 2"
    "ltype (closing_tk 9 RPAR '')'' 4 []) = RPAR"
    by (simp_all add: subscript_closing_def closing_tk_def parent_def)
  have i: "is_import sample_ext import_one = Inr True"
    by (simp add: is_import_def first_leaf_is_def line_bool_def import_one_def line_of_def
        tk_def sample_ext_def)
  have c1: "has_magic_trailing_comma sample_ext set_display (closing_tk 9 RBRACE ''}'' 1 []) False"
    using has_magic_trailing_comma_by_bracket
      [of "closing_tk 9 RBRACE ''}'' 1 []" set_display sample_ext False] a(1) b(1)
    by blast
  have c2: "\<not> has_magic_trailing_comma sample_ext subscript_one subscript_closing False"
    using has_magic_trailing_comma_by_bracket
      [of subscript_closing subscript_one sample_ext False "NodeN trailer []" 2]
      a(2) b(2,3,4) sample_one_sequence(1)
    by simp
  have c3: "has_magic_trailing_comma sample_ext subscript_two subscript_closing False"
    using has_magic_trailing_comma_by_bracket
      [of subscript_closing subscript_two sample_ext False "NodeN trailer []" 2]
      a(3) b(2,4) sample_one_sequence(2)
    by simp
  have c4: "has_magic_trailing_comma sample_ext import_one (closing_tk 9 RPAR '')'' 4 []) False"
    using has_magic_trailing_comma_by_bracket
      [of "closing_tk 9 RPAR '')'' 4 []" import_one sample_ext False] a(4) b(5) i
    by (simp add: CLOSING_BRACKETS_def)
  have c5: "\<not> has_magic_trailing_comma sample_ext (one_name_line ''a'')
         (closing_tk 9 RBRACE ''}'' 1 []) False"
    using has_magic_trailing_comma_by_bracket
      [of "closing_tk 9 RBRACE ''}'' 1 []" "one_name_line ''a''" sample_ext False] a(5)
    by blast
  show ?thesis
    using c1 c2 c3 c4 c5 sample_one_sequence(3) by simp
qed

section \<open>Properties of the omission of optional parentheses\<close>

lemma fold_max_ge: "(a :: int) \<le> fold max ps a"
  by (induction ps arbitrary: a) (auto intro: order_trans [OF max.cobounded2])

lemma fold_max_upper: "q \<in> set ps \<Longrightarrow> (q :: int) \<le> fold max ps a"
proof (induction ps arbitrary: a)
  case Nil
  then show ?case by simp
next
  case (Cons p ps)
  then show ?case
    using fold_max_ge [of "max p a" ps] by auto
qed

lemma fold_max_mem: "fold max ps (a :: int) \<in> insert a (set ps)"
proof (induction ps arbitrary: a)
  case Nil
  then show ?case by simp
next
  case (Cons p ps)
  show ?case
  proof (cases "p \<le> a")
    case True
    then have "max p a = a" by simp
    then show ?thesis using Cons.IH [of a] by auto
  next
    case False
    then have "max p a = p" by simp
    then show ?thesis using Cons.IH [of p] by auto
  qed
qed

lemma max_delimiter_priority_is_max:
  assumes "delimiters bt \<noteq> []"
  shows "\<exists>p. max_delimiter_priority bt = Inr p
             \<and> p \<in> snd ` set (delimiters bt)
             \<and> (\<forall>q \<in> snd ` set (delimiters bt). q \<le> p)
             \<and> 1 \<le> delimiter_count_with_priority bt p"
proof -
  obtain d ds where ds: "map snd (delimiters bt) = d # ds"
    using assms by (cases "map snd (delimiters bt)") auto
  let ?p = "fold max ds d"
  have s: "snd ` set (delimiters bt) = insert d (set ds)"
    using ds by (metis list.simps(15) set_map)
  have m: "max_delimiter_priority bt = Inr ?p"
    by (simp add: max_delimiter_priority_def ds)
  have mem: "?p \<in> snd ` set (delimiters bt)"
    unfolding s by (rule fold_max_mem)
  have up: "\<forall>q \<in> snd ` set (delimiters bt). q \<le> ?p"
    unfolding s using fold_max_ge [of d ds] fold_max_upper [of _ ds d] by auto
  have "?p \<in> set (filter (\<lambda>q. q = ?p) (map snd (delimiters bt)))"
    using mem by auto
  then have "filter (\<lambda>q. q = ?p) (map snd (delimiters bt)) \<noteq> []"
    by (metis empty_iff empty_set)
  then have "1 \<le> delimiter_count_with_priority bt ?p"
    by (cases "filter (\<lambda>q. q = ?p) (map snd (delimiters bt))")
       (simp_all add: delimiter_count_with_priority_def)
  then show ?thesis
    using m mem up by blast
qed

lemma is_max_priority_max:
  assumes "is_max_priority bt p"
  shows "delimiters bt \<noteq> [] \<and> max_delimiter_priority bt = Inr p"
proof -
  have ne: "delimiters bt \<noteq> []"
    using assms by (auto simp: is_max_priority_def)
  then obtain p' where m: "max_delimiter_priority bt = Inr p'"
    and mem: "p' \<in> snd ` set (delimiters bt)"
    and up: "\<forall>q \<in> snd ` set (delimiters bt). q \<le> p'"
    using max_delimiter_priority_is_max by blast
  have "p \<le> p'"
    using assms up by (auto simp: is_max_priority_def)
  moreover have "p' \<le> p"
    using assms mem by (auto simp: is_max_priority_def list_all_iff)
  ultimately show ?thesis
    using ne m by simp
qed

text \<open>
  C3. \<^verbatim>\<open>can_omit_invisible_parens\<close> returns true when the body's tracker records no
  delimiter; it returns false when more than one delimiter has the body's maximum
  priority; and when exactly one delimiter has the maximum priority and that priority
  is the attribute-access priority, it returns true. (The attribute-access and comma
  priorities are constants of \<^verbatim>\<open>cercis.brackets\<close> and are taken to differ.)
\<close>

theorem can_omit_invisible_parens_by_delimiters:
  "(delimiters (bracket_tracker (body rhs)) = []
      \<longrightarrow> can_omit_invisible_parens x rhs limit = Inr True)
   \<and> (is_max_priority (bracket_tracker (body rhs)) p
        \<and> delimiter_count_with_priority (bracket_tracker (body rhs)) p > 1
      \<longrightarrow> can_omit_invisible_parens x rhs limit = Inr False)
   \<and> (is_max_priority (bracket_tracker (body rhs)) p
        \<and> delimiter_count_with_priority (bracket_tracker (body rhs)) p = 1
        \<and> p = brackets_DOT_PRIORITY x
        \<and> brackets_DOT_PRIORITY x \<noteq> brackets_COMMA_PRIORITY x
      \<longrightarrow> can_omit_invisible_parens x rhs limit = Inr True)"
proof (intro conjI impI)
  assume "delimiters (bracket_tracker (body rhs)) = []"
  then show "can_omit_invisible_parens x rhs limit = Inr True"
    by (simp add: can_omit_invisible_parens_def)
next
  assume a: "is_max_priority (bracket_tracker (body rhs)) p
        \<and> delimiter_count_with_priority (bracket_tracker (body rhs)) p > 1"
  then show "can_omit_invisible_parens x rhs limit = Inr False"
    using is_max_priority_max [of "bracket_tracker (body rhs)" p]
    by (simp add: can_omit_invisible_parens_def Let_def ebind_def)
next
  assume a: "is_max_priority (bracket_tracker (body rhs)) p
        \<and> delimiter_count_with_priority (bracket_tracker (body rhs)) p = 1
        \<and> p = brackets_DOT_PRIORITY x
        \<and> brackets_DOT_PRIORITY x \<noteq> brackets_COMMA_PRIORITY x"
  then show "can_omit_invisible_parens x rhs limit = Inr True"
    using is_max_priority_max [of "bracket_tracker (body rhs)" p]
    by (auto simp: can_omit_invisible_parens_def Let_def ebind_def eand_def)
qed

lemma sample_rhs_tracker:
  "bracket_tracker (body (sample_rhs ds)) = sample_tracker 0 ds"
  by (simp add: sample_rhs_def)

theorem can_omit_invisible_parens_by_delimiters_witness:
  "can_omit_invisible_parens sample_ext (sample_rhs []) 5 = Inr True
   \<and> can_omit_invisible_parens sample_ext (sample_rhs [(2, 9), (4, 9)]) 5 = Inr False
   \<and> can_omit_invisible_parens sample_ext (sample_rhs [(2, 1)]) 5 = Inr True"
proof -
  have d: "brackets_DOT_PRIORITY sample_ext = 1"
    "brackets_DOT_PRIORITY sample_ext \<noteq> brackets_COMMA_PRIORITY sample_ext"
    by (simp_all add: sample_ext_def)
  have m: "is_max_priority (sample_tracker 0 [(2, 9), (4, 9)]) 9"
    "delimiter_count_with_priority (sample_tracker 0 [(2, 9), (4, 9)]) 9 = 2"
    "is_max_priority (sample_tracker 0 [(2, 1)]) 1"
    "delimiter_count_with_priority (sample_tracker 0 [(2, 1)]) 1 = 1"
    "delimiters (sample_tracker 0 []) = []"
    by (simp_all add: is_max_priority_def delimiter_count_with_priority_def
        sample_tracker_def)
  have c1: "can_omit_invisible_parens sample_ext (sample_rhs []) 5 = Inr True"
    using can_omit_invisible_parens_by_delimiters [of "sample_rhs []" sample_ext 5] m(5)
    by (simp add: sample_rhs_tracker)
  have c2: "can_omit_invisible_parens sample_ext (sample_rhs [(2, 9), (4, 9)]) 5 = Inr False"
    using can_omit_invisible_parens_by_delimiters
      [of "sample_rhs [(2, 9), (4, 9)]" sample_ext 5 9] m(1,2)
    by (simp add: sample_rhs_tracker)
  have c3: "can_omit_invisible_parens sample_ext (sample_rhs [(2, 1)]) 5 = Inr True"
    using can_omit_invisible_parens_by_delimiters
      [of "sample_rhs [(2, 1)]" sample_ext 5 1] m(3,4) d
    by (simp add: sample_rhs_tracker)
  show ?thesis
    using c1 c2 c3 by simp
qed

section \<open>Properties of the blank-line tracker\<close>

lemma ebind_Inr_iff:
  "ebind m f = Inr r \<longleftrightarrow> (\<exists>v. m = Inr v \<and> f v = Inr r)"
  by (cases m) (simp_all add: ebind_def)

lemma hoist_newlines_frame:
  assumes "hoist_newlines t c n = (ba, t')"
  shows "previous_line t' = previous_line t \<and> previous_block t' = previous_block t
         \<and> next_block t' = next_block t \<and> elt_mode t' = elt_mode t
         \<and> previous_defs t' = previous_defs t
         \<and> (\<forall>a. after (blocks t' a) = after (blocks t a))"
  using assms by (auto simp: hoist_newlines_def split: option.splits)

lemma class_or_def_spacing_shape:
  assumes body: "class_or_def_spacing t1 cur b = Inr (ba, t')"
  shows "t' = t1 \<or> (\<exists>c n. hoist_newlines t1 c n = (ba, t'))"
proof (cases "previous_line t1")
  case None
  then show ?thesis using body by (simp add: class_or_def_spacing_def)
next
  case (Some prev_line)
  note body' = body [unfolded class_or_def_spacing_def Some option.case]
  obtain pd where pd: "is_decorator prev_line = Inr pd"
    using body' by (auto simp: ebind_Inr_iff)
  show ?thesis
  proof (cases pd)
    case True
    then show ?thesis
      using body' pd by (auto simp: ebind_Inr_iff split: if_splits)
  next
    case False
    then obtain os where os: "eand (Inr (length (depth prev_line) < length (depth cur)))
                           (eor (is_class prev_line) (Inr (is_def prev_line))) = Inr os"
      using body' pd by (auto simp: ebind_Inr_iff)
    show ?thesis
    proof (cases os)
      case True
      then show ?thesis
        using body' pd False os by (simp add: ebind_def)
    next
      case nos: False
      then obtain target where tg: "hoist_target t1 prev_line cur b = Inr target"
        using body' pd False os by (auto simp: ebind_def split: sum.splits)
      show ?thesis
      proof (cases target)
        case None
        then show ?thesis
          using body' pd False os nos tg by (simp add: ebind_def)
      next
        case (Some c)
        then show ?thesis
          using body' pd False os nos tg
          by (auto simp: ebind_def split: sum.splits)
      qed
    qed
  qed
qed






lemma is_def_facts:
  assumes "is_def l"
  shows "leaves l \<noteq> []" and "is_decorator l = Inr False" and "is_class l = Inr False"
    and "\<not> is_comment l"
  using assms
  by (auto simp: is_def_def is_decorator_def is_class_def is_comment_def first_leaf_is_def
      line_bool_def split: list.splits)














lemma pop_previous_defs_subset:
  "pop_previous_defs m cur prev defs b = Inr (b', r) \<Longrightarrow> set r \<subseteq> set defs"
proof (induction defs arbitrary: b rule: rev_induct)
  case Nil
  then show ?case by (simp add: pop_previous_defs.simps)
next
  case (snoc d ds)
  show ?case
  proof (cases "length (depth d) \<ge> length (depth cur)")
    case True
    then obtain b1 where "before_after_def m cur prev d b = Inr b1"
      and "pop_previous_defs m cur prev ds b1 = Inr (b', r)"
      using snoc.prems
      by (subst (asm) pop_previous_defs.simps) (auto split: sum.splits)
    then show ?thesis using snoc.IH by auto
  next
    case False
    then have "r = ds @ [d]"
      using snoc.prems by (subst (asm) pop_previous_defs.simps) auto
    then show ?thesis by simp
  qed
qed

lemma stacked_defs_keep_leaves:
  assumes r: "maybe_empty_lines x t cur = Inr (t', b)"
    and inv: "list_all (\<lambda>d. leaves d \<noteq> []) (previous_defs t)"
  shows "list_all (\<lambda>d. leaves d \<noteq> []) (previous_defs t')"
proof -
  obtain ba t1 cl where pr: "maybe_empty_lines_priv x t cur = Inr (ba, t1, cl)"
    and pd: "previous_defs t' = previous_defs t1"
    using r
    by (cases "maybe_empty_lines_priv x t cur")
       (auto simp: maybe_empty_lines_def ebind_Inr_iff Let_def)
  obtain b0 c0 where cn: "consume_newlines (elt_mode t) cur = (b0, c0)"
    by (cases "consume_newlines (elt_mode t) cur") auto
  obtain b1 defs where pop:
    "pop_previous_defs (elt_mode t) c0 (previous_line t) (previous_defs t) b0 = Inr (b1, defs)"
    using pr cn
    by (cases "pop_previous_defs (elt_mode t) c0 (previous_line t) (previous_defs t) b0")
       (auto simp: maybe_empty_lines_priv_def ebind_def)
  have dinv: "list_all (\<lambda>d. leaves d \<noteq> []) defs"
    using pop_previous_defs_subset [OF pop] inv by (auto simp: list_all_iff)
  obtain cd where cd: "eor (is_decorator c0) (eor (Inr (is_def c0)) (is_class c0)) = Inr cd"
    using pr cn pop
    by (cases "eor (is_decorator c0) (eor (Inr (is_def c0)) (is_class c0))")
       (auto simp: maybe_empty_lines_priv_def ebind_def)
  have "list_all (\<lambda>d. leaves d \<noteq> []) (previous_defs t1)"
  proof (cases cd)
    case False
    then have "t1 = t\<lparr>previous_defs := defs\<rparr>"
      using pr cn pop cd
      by (auto simp: maybe_empty_lines_priv_def ebind_Inr_iff Let_def)
    then show ?thesis using dinv by simp
  next
    case True
    then have cod: "maybe_empty_lines_for_class_or_def (t\<lparr>previous_defs := defs\<rparr>) c0 b1
                      = Inr (ba, t1)"
      using pr cn pop cd
      by (auto simp: maybe_empty_lines_priv_def ebind_Inr_iff Let_def)
    then obtain dec where dec: "is_decorator c0 = Inr dec"
      by (auto simp: maybe_empty_lines_for_class_or_def_def ebind_Inr_iff)
    define t0 where "t0 = (if \<not> dec then t\<lparr>previous_defs := defs @ [c0]\<rparr>
                            else t\<lparr>previous_defs := defs\<rparr>)"
    have sp: "class_or_def_spacing t0 c0 b1 = Inr (ba, t1)"
      using cod dec
      by (cases dec) (simp_all add: maybe_empty_lines_for_class_or_def_def ebind_simps t0_def)
    have "previous_defs t1 = previous_defs t0"
      using class_or_def_spacing_shape [OF sp] hoist_newlines_frame by blast
    moreover have "leaves c0 \<noteq> []" if "\<not> dec"
      using that True cd dec
      by (cases "is_def c0")
         (auto simp: eor_simps is_def_facts(1) is_class_def first_leaf_is_def
           split: if_splits list.splits)
    ultimately show ?thesis
      using dinv by (auto simp: t0_def)
  qed
  then show ?thesis using pd by simp
qed

end
